theory Spec2Isabelle
  imports Complex_Main
begin

section \<open>JavaScript values used by the flight-search backend\<close>

text \<open>
  The backend is one Express handler, \<^verbatim>\<open>app.post('/search_flights', ...)\<close>, and one
  pure helper, \<^verbatim>\<open>mapOfferToOption\<close>. The model follows \<^verbatim>\<open>src/unnamed/part_000\<close>, the
  version of the program with the three trip types, the per-segment fare map and the
  travel class; \<^verbatim>\<open>src/app.js\<close> and \<^verbatim>\<open>src/unnamed/part_001\<close> are earlier versions of the
  same file. Both functions work on JSON data, so the model starts with the JavaScript
  values they touch.

  A JavaScript number is a binary64 float. The model keeps the exact value of a finite
  number as a rational and has \<open>NaN\<close> and the two infinities as separate values. The only
  arithmetic of the program is the conversion of a decimal literal, which rounds to the
  nearest binary64 value (\<open>to_double\<close> below); the comparisons it makes are exact on
  floats.
\<close>

datatype jsnum = NaN | NegInf | Fin rat | PosInf

text \<open>The relational operator \<^verbatim>\<open><=\<close> on numbers: false as soon as one side is \<open>NaN\<close>.\<close>

fun js_le :: "jsnum \<Rightarrow> jsnum \<Rightarrow> bool" where
  "js_le NaN y = False"
| "js_le x NaN = False"
| "js_le NegInf y = True"
| "js_le x PosInf = True"
| "js_le (Fin a) (Fin b) = (a \<le> b)"
| "js_le x y = False"

text \<open>
  A field of the request body is a JSON scalar, or \<open>Undefined\<close> when the key is absent.
  Array- and object-valued request fields are outside the model, except \<^verbatim>\<open>segments\<close>,
  which has a type of its own below.
\<close>

datatype scalar = Undefined | Null | Boolean bool | Number jsnum | Str string

text \<open>Truthiness, as the conditions \<^verbatim>\<open>if (x)\<close>, \<^verbatim>\<open>!x\<close> and \<^verbatim>\<open>x || y\<close> test it.\<close>

fun truthy :: "scalar \<Rightarrow> bool" where
  "truthy Undefined = False"
| "truthy Null = False"
| "truthy (Boolean b) = b"
| "truthy (Number n) = (n \<noteq> NaN \<and> n \<noteq> Fin 0)"
| "truthy (Str s) = (s \<noteq> [])"

subsection \<open>The built-ins \<^verbatim>\<open>parseFloat\<close> and \<^verbatim>\<open>ToNumber\<close>\<close>

text \<open>
  \<^verbatim>\<open>parseFloat\<close> skips leading white space and reads the longest prefix that is a
  \<^verbatim>\<open>StrDecimalLiteral\<close> (sign, then \<^verbatim>\<open>Infinity\<close> or digits with an optional fraction
  and exponent); if there is none the result is \<open>NaN\<close>. Strings are byte lists here, so
  only the ASCII white-space characters are recognised.
\<close>

definition is_digit :: "char \<Rightarrow> bool" where
  "is_digit c = (c \<in> set ''0123456789'')"

definition is_ws :: "char \<Rightarrow> bool" where
  "is_ws c = ((of_char c :: nat) \<in> {9, 10, 11, 12, 13, 32})"

definition digits_val :: "string \<Rightarrow> nat" where
  "digits_val ds = foldl (\<lambda>n c. 10 * n + ((of_char c :: nat) - 48)) 0 ds"

text \<open>An optional sign: whether it is a minus, and the rest of the string.\<close>

fun sign_part :: "string \<Rightarrow> bool \<times> string" where
  "sign_part [] = (False, [])"
| "sign_part (c # t) =
     (if c = CHR ''-'' then (True, t) else if c = CHR ''+'' then (False, t) else (False, c # t))"

text \<open>
  A decimal literal denotes a ratio of two natural numbers; the number it stands for is
  the binary64 value nearest to the ratio, ties going to the even significand. \<open>ilog2\<close>
  is the position of the leading bit of a positive natural number.
\<close>

fun ilog2 :: "nat \<Rightarrow> nat" where
  "ilog2 n = (if n < 2 then 0 else Suc (ilog2 (n div 2)))"

declare ilog2.simps [simp del]

text \<open>\<open>\<lfloor>log\<^sub>2 (a / b)\<rfloor>\<close> for positive \<open>a\<close> and \<open>b\<close>.\<close>

definition ratio_log2 :: "nat \<Rightarrow> nat \<Rightarrow> int" where
  "ratio_log2 a b =
     (let d = int (ilog2 a) - int (ilog2 b)
      in if 0 \<le> d then (if b * 2 ^ nat d \<le> a then d else d - 1)
         else (if b \<le> a * 2 ^ nat (- d) then d else d - 1))"

text \<open>The integer nearest to \<open>n / d\<close>, the even one of the two when \<open>n / d\<close> is halfway.\<close>

definition round_div :: "nat \<Rightarrow> nat \<Rightarrow> nat" where
  "round_div n d =
     (let q = n div d; r = n mod d
      in if 2 * r < d then q else if d < 2 * r then q + 1 else if even q then q else q + 1)"

text \<open>
  The binary64 value of \<open>a / b\<close> (\<open>b\<close> positive): a significand of at most 53 bits at the
  exponent of the leading bit, or at the smallest exponent, \<open>-1074\<close>, for a subnormal
  value; \<open>Infinity\<close> when the rounded value reaches \<open>2\<^sup>1\<^sup>0\<^sup>2\<^sup>4\<close>. The sign of a zero is not
  kept: \<open>-0\<close> and \<open>0\<close> are equal, both falsy, and both written \<^verbatim>\<open>0\<close> in JSON.
\<close>

definition to_double :: "nat \<Rightarrow> nat \<Rightarrow> jsnum" where
  "to_double a b =
     (if a = 0 then Fin 0
      else
        (let e = max (ratio_log2 a b - 52) (- 1074)
         in if 0 \<le> e
            then (let m = round_div a (b * 2 ^ nat e)
                  in if 2 ^ 1024 \<le> m * 2 ^ nat e then PosInf else Fin (of_nat (m * 2 ^ nat e)))
            else Fin (of_nat (round_div (a * 2 ^ nat (- e)) b) / 2 ^ nat (- e))))"

fun negate :: "jsnum \<Rightarrow> jsnum" where
  "negate NaN = NaN"
| "negate NegInf = PosInf"
| "negate (Fin v) = Fin (- v)"
| "negate PosInf = NegInf"

text \<open>
  The exponent part after a mantissa \<open>a / b\<close>: \<^verbatim>\<open>e\<close> or \<^verbatim>\<open>E\<close>, an optional sign and at
  least one digit. When the digits are missing the exponent is not part of the literal.
\<close>

fun exponent_part :: "nat \<Rightarrow> nat \<Rightarrow> string \<Rightarrow> nat \<times> nat \<times> string" where
  "exponent_part a b [] = (a, b, [])"
| "exponent_part a b (c # t) =
     (if c = CHR ''e'' \<or> c = CHR ''E'' then
        (let (neg, u) = sign_part t; ds = takeWhile is_digit u
         in if ds = [] then (a, b, c # t)
            else if neg then (a, b * 10 ^ digits_val ds, dropWhile is_digit u)
            else (a * 10 ^ digits_val ds, b, dropWhile is_digit u))
      else (a, b, c # t))"

text \<open>The fraction after the integer digits: its digits and what follows them.\<close>

fun fraction_part :: "string \<Rightarrow> string \<times> string" where
  "fraction_part [] = ([], [])"
| "fraction_part (c # t) =
     (if c = CHR ''.'' then (takeWhile is_digit t, dropWhile is_digit t) else ([], c # t))"

text \<open>
  The longest unsigned decimal literal at the start of a string: numerator and denominator
  of its value and the rest of the string, or \<open>None\<close> when the string starts with no digit
  (a lone \<^verbatim>\<open>.\<close> is no literal).
\<close>

definition str_decimal :: "string \<Rightarrow> (nat \<times> nat \<times> string) option" where
  "str_decimal s =
     (let ip = takeWhile is_digit s;
          (fp, r) = fraction_part (dropWhile is_digit s)
      in if ip = [] \<and> fp = [] then None
         else Some (exponent_part (digits_val (ip @ fp)) (10 ^ length fp) r))"

definition parseFloat :: "string \<Rightarrow> jsnum" where
  "parseFloat s =
     (let (neg, u) = sign_part (dropWhile is_ws s)
      in if take 8 u = ''Infinity'' then (if neg then NegInf else PosInf)
         else (case str_decimal u of
                 None \<Rightarrow> NaN
               | Some (a, b, r) \<Rightarrow> (if neg then negate (to_double a b) else to_double a b)))"

text \<open>
  \<^verbatim>\<open>ToNumber\<close> is the coercion \<^verbatim>\<open><=\<close> applies to a non-number operand. On a string it
  trims white space and wants the whole rest to be a numeric literal (the empty string is
  \<open>0\<close>); hexadecimal, octal and binary integer literals are accepted without a sign.
\<close>

definition radix_digit :: "char \<Rightarrow> nat" where
  "radix_digit c =
     (let n = (of_char c :: nat)
      in if 48 \<le> n \<and> n \<le> 57 then n - 48
         else if 97 \<le> n \<and> n \<le> 102 then n - 87
         else if 65 \<le> n \<and> n \<le> 70 then n - 55
         else 16)"

definition radix_val :: "nat \<Rightarrow> string \<Rightarrow> nat option" where
  "radix_val b ds =
     (if ds \<noteq> [] \<and> list_all (\<lambda>c. radix_digit c < b) ds
      then Some (foldl (\<lambda>n c. b * n + radix_digit c) 0 ds) else None)"

definition non_decimal :: "string \<Rightarrow> nat option" where
  "non_decimal s =
     (if take 2 s = ''0x'' \<or> take 2 s = ''0X'' then radix_val 16 (drop 2 s)
      else if take 2 s = ''0o'' \<or> take 2 s = ''0O'' then radix_val 8 (drop 2 s)
      else if take 2 s = ''0b'' \<or> take 2 s = ''0B'' then radix_val 2 (drop 2 s)
      else None)"

definition stringToNumber :: "string \<Rightarrow> jsnum" where
  "stringToNumber s =
     (let t = rev (dropWhile is_ws (rev (dropWhile is_ws s)))
      in if t = [] then Fin 0
         else (case non_decimal t of
                 Some n \<Rightarrow> to_double n 1
               | None \<Rightarrow>
                   (let (neg, u) = sign_part t
                    in if u = ''Infinity'' then (if neg then NegInf else PosInf)
                       else (case str_decimal u of
                               Some (a, b, []) \<Rightarrow>
                                 (if neg then negate (to_double a b) else to_double a b)
                             | _ \<Rightarrow> NaN))))"

text \<open>
  \<^verbatim>\<open>JSON.stringify\<close>, which \<^verbatim>\<open>res.json\<close> applies to the body, writes a finite number as
  it is and \<open>NaN\<close> and the infinities as \<^verbatim>\<open>null\<close> (\<open>None\<close>).
\<close>

fun jsonNumber :: "jsnum \<Rightarrow> rat option" where
  "jsonNumber (Fin v) = Some v"
| "jsonNumber NaN = None"
| "jsonNumber NegInf = None"
| "jsonNumber PosInf = None"

fun toNumber :: "scalar \<Rightarrow> jsnum" where
  "toNumber Undefined = NaN"
| "toNumber Null = Fin 0"
| "toNumber (Boolean b) = (if b then Fin 1 else Fin 0)"
| "toNumber (Number n) = n"
| "toNumber (Str s) = stringToNumber s"

section \<open>The upstream offer and the normalized option\<close>

text \<open>
  A raw flight offer as the provider's JSON has it. The fields the code reads without a
  guard are plain; the ones it guards with \<^verbatim>\<open>?.\<close>, \<^verbatim>\<open>||\<close> or \<^verbatim>\<open>??\<close> are optional
  (\<open>None\<close> when the key is absent). The itinerary and segment arrays may be empty.
\<close>

record endpoint =
  ep_iataCode :: string
  ep_at :: string

record raw_segment =
  s_id :: string
  s_departure :: endpoint
  s_arrival :: endpoint
  s_carrierCode :: string
  s_number :: string

record itinerary =
  it_duration :: string
  it_segments :: "raw_segment list"

record checked_bags =
  cb_quantity :: "nat option"

record fare_detail =
  fd_segmentId :: string
  fd_cabin :: "string option"
  fd_class :: "string option"
  fd_brandedFare :: "string option"
  fd_fareBasis :: "string option"
  fd_includedCheckedBags :: "checked_bags option"

record traveler_pricing =
  tp_fareDetailsBySegment :: "fare_detail list option"

record offer_price =
  pr_total :: string
  pr_currency :: string

record raw_offer =
  o_id :: string
  o_price :: offer_price
  o_itineraries :: "itinerary list"
  o_travelerPricings :: "traveler_pricing list option"

text \<open>
  The value stored in \<^verbatim>\<open>segmentFareMap\<close> for one segment: five members, each a value or
  \<^verbatim>\<open>null\<close> (\<open>None\<close>).
\<close>

record fare_info =
  fi_cabin :: "string option"
  fi_class :: "string option"
  fi_brandedFare :: "string option"
  fi_fareBasis :: "string option"
  fi_checkedBags :: "nat option"

text \<open>
  A member of an output segment is a value, \<^verbatim>\<open>null\<close>, or \<^verbatim>\<open>undefined\<close>; the serializer
  leaves a member that is \<^verbatim>\<open>undefined\<close> out of the JSON text.
\<close>

datatype 'a member = Undef | IsNull | Val 'a

record segment_out =
  so_from :: string
  so_to :: string
  so_departureTime :: string
  so_arrivalTime :: string
  so_carrier :: string
  so_flightNumber :: string
  so_cabin :: "string member"
  so_class :: "string member"
  so_brandedFare :: "string member"
  so_fareBasis :: "string member"
  so_checkedBags :: "nat member"

record flight_option =
  opt_id :: string
  opt_price :: jsnum
  opt_currency :: string
  opt_duration :: string
  opt_airline :: string
  opt_cabin :: "string option"
  opt_brandedFare :: "string option"
  opt_fareBasis :: "string option"
  opt_checkedBags :: "nat option"
  opt_segments :: "segment_out list"

text \<open>
  What the handler's \<^verbatim>\<open>catch\<close> can receive: a \<^verbatim>\<open>TypeError\<close> from reading a property
  of \<^verbatim>\<open>undefined\<close> (the property is kept), or the error of a failed HTTP call with the
  provider's payload (\<^verbatim>\<open>error.response?.data\<close>) when there is one, and its message.
\<close>

datatype js_error = TypeError string | AxiosError "string option" string

subsection \<open>\<^verbatim>\<open>mapOfferToOption\<close>\<close>

text \<open>\<^verbatim>\<open>x || null\<close> on an optional string: an absent and an empty string both give \<^verbatim>\<open>null\<close>.\<close>

fun or_null :: "string option \<Rightarrow> string option" where
  "or_null None = None"
| "or_null (Some s) = (if s = [] then None else Some s)"

text \<open>
  \<^verbatim>\<open>const traveler = offer.travelerPricings?.[0] || {};\<close>
  \<^verbatim>\<open>const fareDetails = traveler.fareDetailsBySegment || [];\<close>
\<close>

definition fareDetails :: "raw_offer \<Rightarrow> fare_detail list" where
  "fareDetails offer =
     (case o_travelerPricings offer of
        None \<Rightarrow> []
      | Some [] \<Rightarrow> []
      | Some (traveler # _) \<Rightarrow>
          (case tp_fareDetailsBySegment traveler of None \<Rightarrow> [] | Some fds \<Rightarrow> fds))"

text \<open>The object literal assigned to \<^verbatim>\<open>segmentFareMap[segId]\<close>.\<close>

definition fareInfoOf :: "fare_detail \<Rightarrow> fare_info" where
  "fareInfoOf fd =
     \<lparr> fi_cabin = or_null (fd_cabin fd),
       fi_class = or_null (fd_class fd),
       fi_brandedFare = or_null (fd_brandedFare fd),
       fi_fareBasis = or_null (fd_fareBasis fd),
       fi_checkedBags =
         (case fd_includedCheckedBags fd of None \<Rightarrow> None | Some b \<Rightarrow> cb_quantity b) \<rparr>"

text \<open>
  The \<^verbatim>\<open>forEach\<close> that fills \<^verbatim>\<open>segmentFareMap\<close> (lines 39 to 49), entry after entry; a
  later entry for the same segment identifier replaces the earlier one. The map holds what
  has been assigned under each name. For the name \<^verbatim>\<open>__proto__\<close> the assignment does not
  create a property: it makes the assigned object the prototype of \<^verbatim>\<open>segmentFareMap\<close>,
  and reading \<^verbatim>\<open>__proto__\<close> gives that object back.
\<close>

definition fillFareMap :: "fare_detail list \<Rightarrow> (string \<rightharpoonup> fare_info)" where
  "fillFareMap fds = foldl (\<lambda>m fd. m(fd_segmentId fd \<mapsto> fareInfoOf fd)) Map.empty fds"

definition segmentFareMap :: "raw_offer \<Rightarrow> (string \<rightharpoonup> fare_info)" where
  "segmentFareMap offer = fillFareMap (fareDetails offer)"

definition fallbackFare :: fare_info where
  "fallbackFare =
     \<lparr> fi_cabin = None, fi_class = None, fi_brandedFare = None, fi_fareBasis = None,
       fi_checkedBags = None \<rparr>"

text \<open>
  \<^verbatim>\<open>segmentFareMap\<close> is a plain object, so reading \<^verbatim>\<open>segmentFareMap[id]\<close> for a name that
  was not assigned goes on to the prototype chain. The names below are the properties of
  \<^verbatim>\<open>Object.prototype\<close>; each holds a function, except \<^verbatim>\<open>__proto__\<close>, which gives the
  prototype object.
\<close>

definition object_prototype_names :: "string list" where
  "object_prototype_names =
     [''constructor'', ''__defineGetter__'', ''__defineSetter__'', ''hasOwnProperty'',
      ''__lookupGetter__'', ''__lookupSetter__'', ''isPrototypeOf'', ''propertyIsEnumerable'',
      ''toString'', ''valueOf'', ''__proto__'', ''toLocaleString'']"

text \<open>
  What a read of \<^verbatim>\<open>segmentFareMap[id]\<close> gives: a fare object that was assigned; a falsy
  value (\<^verbatim>\<open>undefined\<close> for a name found nowhere, or \<^verbatim>\<open>null\<close> or \<^verbatim>\<open>0\<close> found on the
  prototype); or a truthy value that is no fare object (a function, \<^verbatim>\<open>Object.prototype\<close>,
  a string or a number found on the prototype), on which the five fare members read as
  \<^verbatim>\<open>undefined\<close>.
\<close>

datatype fare_lookup = NoFare | Fare fare_info | Foreign

text \<open>
  When a fare object \<open>x\<close> has become the prototype, its own five members are found under
  their names: whether the member \<open>k\<close> of \<open>x\<close> is truthy.
\<close>

definition truthy_member :: "fare_info \<Rightarrow> string \<Rightarrow> bool" where
  "truthy_member x k =
     (if k = ''cabin'' then fi_cabin x \<noteq> None \<and> fi_cabin x \<noteq> Some []
      else if k = ''class'' then fi_class x \<noteq> None \<and> fi_class x \<noteq> Some []
      else if k = ''brandedFare'' then fi_brandedFare x \<noteq> None \<and> fi_brandedFare x \<noteq> Some []
      else if k = ''fareBasis'' then fi_fareBasis x \<noteq> None \<and> fi_fareBasis x \<noteq> Some []
      else if k = ''checkedBags'' then fi_checkedBags x \<noteq> None \<and> fi_checkedBags x \<noteq> Some 0
      else False)"

definition fareLookup :: "(string \<rightharpoonup> fare_info) \<Rightarrow> string \<Rightarrow> fare_lookup" where
  "fareLookup m k =
     (case m k of
        Some f \<Rightarrow> Fare f
      | None \<Rightarrow>
          if k \<in> set object_prototype_names then Foreign
          else (case m ''__proto__'' of
                  None \<Rightarrow> NoFare
                | Some x \<Rightarrow> if truthy_member x k then Foreign else NoFare))"

text \<open>A member of a fare object as a member of the output: \<^verbatim>\<open>null\<close> or the value.\<close>

fun nullable :: "'a option \<Rightarrow> 'a member" where
  "nullable None = IsNull"
| "nullable (Some v) = Val v"

text \<open>
  \<^verbatim>\<open>const fareInfo = segmentFareMap[s.id] || fallbackFare;\<close> followed by
  \<^verbatim>\<open>fareInfo.cabin\<close> and the like, for the member that \<open>sel\<close> selects.
\<close>

fun segmentMember :: "(fare_info \<Rightarrow> 'a option) \<Rightarrow> fare_lookup \<Rightarrow> 'a member" where
  "segmentMember sel (Fare f) = nullable (sel f)"
| "segmentMember sel NoFare = nullable (sel fallbackFare)"
| "segmentMember sel Foreign = Undef"

text \<open>
  \<^verbatim>\<open>segmentFareMap[segments[0].id]?.cabin ?? null\<close> and the like: a member that reads as
  \<^verbatim>\<open>undefined\<close> becomes \<^verbatim>\<open>null\<close>.
\<close>

fun offerMember :: "(fare_info \<Rightarrow> 'a option) \<Rightarrow> fare_lookup \<Rightarrow> 'a option" where
  "offerMember sel (Fare f) = sel f"
| "offerMember sel NoFare = None"
| "offerMember sel Foreign = None"

text \<open>The callback of \<^verbatim>\<open>segments.map\<close>: one output segment, with its own fare lookup.\<close>

definition mapSegment :: "(string \<rightharpoonup> fare_info) \<Rightarrow> raw_segment \<Rightarrow> segment_out" where
  "mapSegment m s =
     (let fareInfo = fareLookup m (s_id s)
      in \<lparr> so_from = ep_iataCode (s_departure s),
           so_to = ep_iataCode (s_arrival s),
           so_departureTime = ep_at (s_departure s),
           so_arrivalTime = ep_at (s_arrival s),
           so_carrier = s_carrierCode s,
           so_flightNumber = s_number s,
           so_cabin = segmentMember fi_cabin fareInfo,
           so_class = segmentMember fi_class fareInfo,
           so_brandedFare = segmentMember fi_brandedFare fareInfo,
           so_fareBasis = segmentMember fi_fareBasis fareInfo,
           so_checkedBags = segmentMember fi_checkedBags fareInfo \<rparr>)"

text \<open>
  \<^verbatim>\<open>mapOfferToOption\<close> (lines 32 to 91). With no itinerary \<^verbatim>\<open>firstItinerary\<close> is \<^verbatim>\<open>undefined\<close> and
  reading \<^verbatim>\<open>firstItinerary.segments\<close> throws; with no segment \<^verbatim>\<open>segments[0]?.carrierCode\<close>
  is harmless but \<^verbatim>\<open>segments[0].id\<close> throws. Nothing else in the function can throw on
  an offer of this type.
\<close>

definition mapOfferToOption :: "raw_offer \<Rightarrow> js_error + flight_option" where
  "mapOfferToOption offer =
     (case o_itineraries offer of
        [] \<Rightarrow> Inl (TypeError ''segments'')
      | firstItinerary # _ \<Rightarrow>
          (let segments = it_segments firstItinerary;
               m = segmentFareMap offer
           in case segments of
                [] \<Rightarrow> Inl (TypeError ''id'')
              | s0 # _ \<Rightarrow>
                  Inr \<lparr> opt_id = o_id offer,
                        opt_price = parseFloat (pr_total (o_price offer)),
                        opt_currency = pr_currency (o_price offer),
                        opt_duration = it_duration firstItinerary,
                        opt_airline = s_carrierCode s0,
                        opt_cabin = offerMember fi_cabin (fareLookup m (s_id s0)),
                        opt_brandedFare = offerMember fi_brandedFare (fareLookup m (s_id s0)),
                        opt_fareBasis = offerMember fi_fareBasis (fareLookup m (s_id s0)),
                        opt_checkedBags = offerMember fi_checkedBags (fareLookup m (s_id s0)),
                        opt_segments = map (mapSegment m) segments \<rparr>))"

section \<open>The handler of \<^verbatim>\<open>POST /search_flights\<close>\<close>

text \<open>
  The request body after \<^verbatim>\<open>express.json()\<close>: one scalar per key the handler
  destructures, \<open>Undefined\<close> for a key that is absent. \<^verbatim>\<open>segments\<close> is \<open>None\<close> when it is
  absent or not an array (\<^verbatim>\<open>Array.isArray\<close> is false), and otherwise the list of its
  elements: \<open>None\<close> for an element that is \<^verbatim>\<open>null\<close>, and otherwise its three members as
  scalars. An element that is a number, a string or a boolean has none of the three
  members, like the empty object, and is modelled as a leg spec with all three
  \<open>Undefined\<close>.
\<close>

record leg_spec =
  ls_origin :: scalar
  ls_destination :: scalar
  ls_date :: scalar

record request =
  r_tripType :: scalar
  r_origin :: scalar
  r_destination :: scalar
  r_departureDate :: scalar
  r_returnDate :: scalar
  r_segments :: "leg_spec option list option"
  r_adults :: scalar
  r_currency :: scalar
  r_max :: scalar
  r_maxPrice :: scalar
  r_travelClass :: scalar

text \<open>
  The query parameter object handed to \<^verbatim>\<open>axios.get\<close>. The first six keys are always
  set; each of the last three is \<open>None\<close> while the key has not been assigned.
\<close>

record params =
  p_originLocationCode :: scalar
  p_destinationLocationCode :: scalar
  p_departureDate :: scalar
  p_adults :: scalar
  p_currencyCode :: scalar
  p_max :: scalar
  p_returnDate :: "scalar option"
  p_maxPrice :: "scalar option"
  p_travelClass :: "scalar option"

text \<open>
  The two upstream operations. A run of the handler is recorded as the list of the calls
  it issued, in order: the token request, and flight-offer searches with the bearer token
  and the parameters they were sent with.
\<close>

datatype upstream_call = TokenCall | OffersCall string params

text \<open>
  The collaborators, as the handler sees them: what \<^verbatim>\<open>getAccessToken()\<close> gives (a token,
  or the error it throws), and what \<^verbatim>\<open>axios.get\<close> gives for the search issued for leg
  number \<open>i\<close> (counted from 0) with a token and parameters: the error it throws, or the
  \<^verbatim>\<open>data.data\<close> of the response (\<open>None\<close> when that member is missing).
\<close>

record env =
  getAccessToken :: "js_error + string"
  axios_get :: "nat \<Rightarrow> string \<Rightarrow> params \<Rightarrow> js_error + raw_offer list option"

record leg =
  leg_legIndex :: nat
  leg_origin :: scalar
  leg_destination :: scalar
  leg_date :: scalar
  leg_options :: "flight_option list"

text \<open>
  The JSON bodies the handler sends. A member that is \<^verbatim>\<open>undefined\<close> is left out by the
  serializer, so \<open>Undefined\<close> in a body means that the key is omitted.
\<close>

record single_body =
  sb_tripType :: scalar
  sb_origin :: scalar
  sb_destination :: scalar
  sb_departureDate :: scalar
  sb_returnDate :: scalar
  sb_options :: "flight_option list"

record multi_body =
  mb_adults :: scalar
  mb_currency :: scalar
  mb_max :: scalar
  mb_maxPrice :: scalar
  mb_legs :: "leg list"

datatype body =
    ErrorBody string
  | FailureBody string string
  | SingleBody single_body
  | MultiBody multi_body

record response =
  status :: nat
  body :: body

text \<open>How a block of the handler ends: it threw, or it sent a response and returned.\<close>

datatype outcome = Threw js_error | Sent response

definition quoted :: "string \<Rightarrow> string" where
  "quoted s = CHR 0x27 # s @ [CHR 0x27]"

text \<open>
  \<^verbatim>\<open>error.response?.data || error.message\<close>. The text of a \<^verbatim>\<open>TypeError\<close> is the
  engine's, given here in the form V8 prints it.
\<close>

fun details :: "js_error \<Rightarrow> string" where
  "details (TypeError p) = ''Cannot read properties of undefined (reading '' @ quoted p @ '')''"
| "details (AxiosError None msg) = msg"
| "details (AxiosError (Some d) msg) = (if d = [] then msg else d)"

text \<open>The \<^verbatim>\<open>catch\<close> block: status 500 with the error's details.\<close>

definition failure :: "js_error \<Rightarrow> response" where
  "failure e = \<lparr> status = 500, body = FailureBody ''Failed to search flights'' (details e) \<rparr>"

definition bad_request :: "string \<Rightarrow> response" where
  "bad_request msg = \<lparr> status = 400, body = ErrorBody msg \<rparr>"

text \<open>A destructuring default applies when the value is \<^verbatim>\<open>undefined\<close>, not when it is \<^verbatim>\<open>null\<close>.\<close>

definition dflt :: "scalar \<Rightarrow> scalar \<Rightarrow> scalar" where
  "dflt d v = (if v = Undefined then d else v)"

definition destructure :: "request \<Rightarrow> request" where
  "destructure req =
     req \<lparr> r_tripType := dflt (Str ''oneway'') (r_tripType req),
           r_adults := dflt (Number (Fin 1)) (r_adults req),
           r_currency := dflt (Str ''KWD'') (r_currency req),
           r_max := dflt (Number (Fin 5)) (r_max req) \<rparr>"

text \<open>The object literal \<^verbatim>\<open>params\<close>, the same in both branches but for where the leg comes from.\<close>

definition baseParams :: "scalar \<Rightarrow> scalar \<Rightarrow> scalar \<Rightarrow> request \<Rightarrow> params" where
  "baseParams origin destination date b =
     \<lparr> p_originLocationCode = origin,
       p_destinationLocationCode = destination,
       p_departureDate = date,
       p_adults = r_adults b,
       p_currencyCode = r_currency b,
       p_max = r_max b,
       p_returnDate = None,
       p_maxPrice = None,
       p_travelClass = None \<rparr>"

text \<open>
  \<^verbatim>\<open>if (maxPrice) params.maxPrice = maxPrice;\<close>
  \<^verbatim>\<open>if (travelClass) params.travelClass = travelClass;\<close>
  (twice in the source, once per branch).
\<close>

definition withOptional :: "scalar \<Rightarrow> scalar \<Rightarrow> params \<Rightarrow> params" where
  "withOptional maxPrice travelClass ps =
     (let ps1 = (if truthy maxPrice then ps \<lparr> p_maxPrice := Some maxPrice \<rparr> else ps)
      in if truthy travelClass then ps1 \<lparr> p_travelClass := Some travelClass \<rparr> else ps1)"

text \<open>\<^verbatim>\<open>offers.map(mapOfferToOption)\<close>: the first offer that throws ends the map.\<close>

fun mapOffers :: "raw_offer list \<Rightarrow> js_error + flight_option list" where
  "mapOffers [] = Inr []"
| "mapOffers (offer # rest) =
     (case mapOfferToOption offer of
        Inl e \<Rightarrow> Inl e
      | Inr opt \<Rightarrow> (case mapOffers rest of Inl e \<Rightarrow> Inl e | Inr opts \<Rightarrow> Inr (opt # opts)))"

text \<open>
  \<^verbatim>\<open>if (maxPrice) { options = options.filter((o) => o.price <= maxPrice); }\<close>
  (twice in the source, once per branch).
\<close>

definition budgetFilter :: "scalar \<Rightarrow> flight_option list \<Rightarrow> flight_option list" where
  "budgetFilter maxPrice options =
     (if truthy maxPrice
      then filter (\<lambda>opt. js_le (opt_price opt) (toNumber maxPrice)) options
      else options)"

text \<open>
  \<^verbatim>\<open>dataOrEmpty\<close> is \<^verbatim>\<open>response.data.data || []\<close>. \<^verbatim>\<open>legOptions\<close> is one leg, from
  the search call to the filtered options: the call, the default, the map and the budget
  filter, in this order in both branches. The caller records the call.
\<close>

definition dataOrEmpty :: "raw_offer list option \<Rightarrow> raw_offer list" where
  "dataOrEmpty d = (case d of None \<Rightarrow> [] | Some offers \<Rightarrow> offers)"

definition legOptions ::
  "env \<Rightarrow> nat \<Rightarrow> string \<Rightarrow> scalar \<Rightarrow> params \<Rightarrow> js_error + flight_option list" where
  "legOptions e i token maxPrice ps =
     (case axios_get e i token ps of
        Inl err \<Rightarrow> Inl err
      | Inr d \<Rightarrow>
          (case mapOffers (dataOrEmpty d) of
             Inl err \<Rightarrow> Inl err
           | Inr options \<Rightarrow> Inr (budgetFilter maxPrice options)))"

subsection \<open>One-way and round trip\<close>

text \<open>
  The branch \<^verbatim>\<open>if (tripType === 'oneway' || tripType === 'roundtrip')\<close>, lines 119 to 167:
  the check of the three required fields, the check of the return date for a round trip,
  one search, the response.
\<close>

text \<open>
  The parameters of the single search, once the request has passed both checks: the object
  literal, \<^verbatim>\<open>returnDate\<close> for a round trip, and the two optional keys.
\<close>

definition singleParams :: "request \<Rightarrow> params" where
  "singleParams b =
     (let ps = baseParams (r_origin b) (r_destination b) (r_departureDate b) b;
          ps1 = (if r_tripType b = Str ''roundtrip''
                 then ps \<lparr> p_returnDate := Some (r_returnDate b) \<rparr> else ps)
      in withOptional (r_maxPrice b) (r_travelClass b) ps1)"

text \<open>The body of the successful single-leg response, \<^verbatim>\<open>res.json({ tripType, ... })\<close>.\<close>

definition singleResponse :: "request \<Rightarrow> flight_option list \<Rightarrow> response" where
  "singleResponse b options =
     \<lparr> status = 200,
       body = SingleBody
         \<lparr> sb_tripType = r_tripType b,
           sb_origin = r_origin b,
           sb_destination = r_destination b,
           sb_departureDate = r_departureDate b,
           sb_returnDate =
             (if r_tripType b = Str ''roundtrip'' then r_returnDate b else Undefined),
           sb_options = options \<rparr> \<rparr>"

definition singleSearch :: "env \<Rightarrow> string \<Rightarrow> request \<Rightarrow> upstream_call list \<times> outcome" where
  "singleSearch e token b =
     (if \<not> truthy (r_origin b) \<or> \<not> truthy (r_destination b) \<or> \<not> truthy (r_departureDate b)
      then ([], Sent (bad_request ''origin, destination, and departureDate are required''))
      else if r_tripType b = Str ''roundtrip'' \<and> \<not> truthy (r_returnDate b)
      then ([], Sent (bad_request ''returnDate is required for roundtrip searches''))
      else
        ([OffersCall token (singleParams b)],
         case legOptions e 0 token (r_maxPrice b) (singleParams b) of
           Inl err \<Rightarrow> Threw err
         | Inr options \<Rightarrow> Sent (singleResponse b options)))"

subsection \<open>Multi-city\<close>

text \<open>
  The branch \<^verbatim>\<open>if (tripType === 'multi')\<close>, lines 172 to 232. \<^verbatim>\<open>multiLoop\<close> is the
  \<^verbatim>\<open>for\<close> loop over \<^verbatim>\<open>segments\<close>, from index \<open>i\<close> on, with the legs pushed so far. It
  ends early with a response (an invalid leg) or an exception (reading \<^verbatim>\<open>seg.origin\<close> of
  a \<^verbatim>\<open>null\<close> element at line 184, a failed call, a malformed offer), or runs to the end
  and hands the legs on.
\<close>

definition each_segment_msg :: string where
  "each_segment_msg = ''Each segment must include origin, destination, and date (YYYY-MM-DD)''"

definition leg_ok :: "leg_spec \<Rightarrow> bool" where
  "leg_ok seg = (truthy (ls_origin seg) \<and> truthy (ls_destination seg) \<and> truthy (ls_date seg))"

text \<open>The object pushed onto \<^verbatim>\<open>legs\<close>, with \<^verbatim>\<open>legIndex: i + 1\<close> passed as \<open>n\<close>.\<close>

definition mkLeg :: "nat \<Rightarrow> leg_spec \<Rightarrow> flight_option list \<Rightarrow> leg" where
  "mkLeg n seg options =
     \<lparr> leg_legIndex = n,
       leg_origin = ls_origin seg,
       leg_destination = ls_destination seg,
       leg_date = ls_date seg,
       leg_options = options \<rparr>"

definition legParams :: "request \<Rightarrow> leg_spec \<Rightarrow> params" where
  "legParams b seg =
     withOptional (r_maxPrice b) (r_travelClass b)
       (baseParams (ls_origin seg) (ls_destination seg) (ls_date seg) b)"

fun multiLoop ::
  "env \<Rightarrow> string \<Rightarrow> request \<Rightarrow> nat \<Rightarrow> leg_spec option list \<Rightarrow> leg list
     \<Rightarrow> upstream_call list \<times> (outcome + leg list)" where
  "multiLoop e token b i [] legs = ([], Inr legs)"
| "multiLoop e token b i (None # rest) legs = ([], Inl (Threw (TypeError ''origin'')))"
| "multiLoop e token b i (Some seg # rest) legs =
     (if \<not> leg_ok seg
      then ([], Inl (Sent (bad_request each_segment_msg)))
      else
        (case legOptions e i token (r_maxPrice b) (legParams b seg) of
           Inl err \<Rightarrow> ([OffersCall token (legParams b seg)], Inl (Threw err))
         | Inr options \<Rightarrow>
             (let (calls, r) =
                    multiLoop e token b (i + 1) rest (legs @ [mkLeg (i + 1) seg options])
              in (OffersCall token (legParams b seg) # calls, r))))"

text \<open>
  The body of the successful multi-city response; \<^verbatim>\<open>maxPrice: maxPrice || undefined\<close>
  leaves the key out when the ceiling is falsy.
\<close>

definition multiResponse :: "request \<Rightarrow> leg list \<Rightarrow> response" where
  "multiResponse b legs =
     \<lparr> status = 200,
       body = MultiBody
         \<lparr> mb_adults = r_adults b,
           mb_currency = r_currency b,
           mb_max = r_max b,
           mb_maxPrice = (if truthy (r_maxPrice b) then r_maxPrice b else Undefined),
           mb_legs = legs \<rparr> \<rparr>"

definition multiSearch :: "env \<Rightarrow> string \<Rightarrow> request \<Rightarrow> upstream_call list \<times> outcome" where
  "multiSearch e token b =
     (case r_segments b of
        None \<Rightarrow> ([], Sent (bad_request ''segments array is required for multi-city searches''))
      | Some [] \<Rightarrow> ([], Sent (bad_request ''segments array is required for multi-city searches''))
      | Some (seg # rest) \<Rightarrow>
          (let (calls, r) = multiLoop e token b 0 (seg # rest) []
           in (calls,
               case r of
                 Inl out \<Rightarrow> out
               | Inr legs \<Rightarrow> Sent (multiResponse b legs))))"

subsection \<open>The handler\<close>

text \<open>
  The whole \<^verbatim>\<open>try\<close>/\<^verbatim>\<open>catch\<close>, lines 98 to 247: destructure the body, await the token
  (line 113, before any check of the request), branch on the trip type. The result is the
  list of upstream calls issued and the response sent.
\<close>

definition search_flights :: "env \<Rightarrow> request \<Rightarrow> upstream_call list \<times> response" where
  "search_flights e req =
     (let b = destructure req
      in case getAccessToken e of
           Inl err \<Rightarrow> ([TokenCall], failure err)
         | Inr token \<Rightarrow>
             (let (calls, out) =
                    (if r_tripType b = Str ''oneway'' \<or> r_tripType b = Str ''roundtrip''
                     then singleSearch e token b
                     else if r_tripType b = Str ''multi''
                     then multiSearch e token b
                     else ([], Sent (bad_request
                            (''tripType must be '' @ quoted ''oneway'' @ '', ''
                               @ quoted ''roundtrip'' @ '', or '' @ quoted ''multi''))))
              in (TokenCall # calls,
                  case out of Threw err \<Rightarrow> failure err | Sent r \<Rightarrow> r)))"

section \<open>Reading a run of the handler\<close>

text \<open>
  A single-leg request passes the handler's checks when the trip type is one of the two and
  origin, destination and departure date are truthy, and the return date too for a round
  trip.
\<close>

definition single_ok :: "request \<Rightarrow> bool" where
  "single_ok b =
     ((r_tripType b = Str ''oneway'' \<or> r_tripType b = Str ''roundtrip'') \<and>
      truthy (r_origin b) \<and> truthy (r_destination b) \<and> truthy (r_departureDate b) \<and>
      (r_tripType b = Str ''roundtrip'' \<longrightarrow> truthy (r_returnDate b)))"

text \<open>The option lists a response carries: one for a single-leg body, one per leg otherwise.\<close>

fun options_sent :: "body \<Rightarrow> flight_option list list" where
  "options_sent (SingleBody sb) = [sb_options sb]"
| "options_sent (MultiBody mb) = map leg_options (mb_legs mb)"
| "options_sent (ErrorBody msg) = []"
| "options_sent (FailureBody msg d) = []"

text \<open>
  The \<^verbatim>\<open>price\<close> members of those options as the JSON text of the body has them: the
  number, or \<^verbatim>\<open>null\<close> (\<open>None\<close>).
\<close>

definition prices_sent :: "body \<Rightarrow> rat option list list" where
  "prices_sent bd = map (map (\<lambda>opt. jsonNumber (opt_price opt))) (options_sent bd)"

text \<open>A leg spec the loop accepts: an object whose three members are truthy.\<close>

definition leg_valid :: "leg_spec option \<Rightarrow> bool" where
  "leg_valid x = (case x of None \<Rightarrow> False | Some seg \<Rightarrow> leg_ok seg)"

section \<open>Concrete inputs\<close>

text \<open>
  Offers, environments and requests on which the theorems below are run. They follow the
  scenarios of the specification: a Kuwait to Dubai one-way search, an offer priced
  \<^verbatim>\<open>"542.30"\<close> with two segments and fare details for the first only, and a multi-city
  search with a ceiling of 300 and offers priced 250 and 400.
\<close>

definition ex_segment :: "string \<Rightarrow> string \<Rightarrow> string \<Rightarrow> raw_segment" where
  "ex_segment sid src dst =
     \<lparr> s_id = sid,
       s_departure = \<lparr> ep_iataCode = src, ep_at = ''2025-06-01T08:00:00'' \<rparr>,
       s_arrival = \<lparr> ep_iataCode = dst, ep_at = ''2025-06-01T10:45:00'' \<rparr>,
       s_carrierCode = ''KU'',
       s_number = ''671'' \<rparr>"

definition ex_fare :: "string \<Rightarrow> string option \<Rightarrow> fare_detail" where
  "ex_fare sid cabin =
     \<lparr> fd_segmentId = sid, fd_cabin = cabin, fd_class = None, fd_brandedFare = None,
       fd_fareBasis = None, fd_includedCheckedBags = None \<rparr>"

definition ex_offer ::
  "string \<Rightarrow> raw_segment list \<Rightarrow> traveler_pricing list option \<Rightarrow> raw_offer" where
  "ex_offer amount segs tps =
     \<lparr> o_id = ''1'',
       o_price = \<lparr> pr_total = amount, pr_currency = ''KWD'' \<rparr>,
       o_itineraries = [\<lparr> it_duration = ''PT2H45M'', it_segments = segs \<rparr>],
       o_travelerPricings = tps \<rparr>"

definition ex_fares :: "fare_detail list \<Rightarrow> traveler_pricing list option" where
  "ex_fares fds = Some [\<lparr> tp_fareDetailsBySegment = Some fds \<rparr>]"

definition offer_business :: raw_offer where
  "offer_business =
     ex_offer ''542.30'' [ex_segment ''1'' ''KWI'' ''DXB'', ex_segment ''2'' ''DXB'' ''LHR'']
       (ex_fares [ex_fare ''1'' (Some ''BUSINESS'')])"

definition offer_two_entries :: raw_offer where
  "offer_two_entries =
     ex_offer ''542.30'' [ex_segment ''1'' ''KWI'' ''DXB'']
       (ex_fares [ex_fare ''1'' (Some ''ECONOMY''), ex_fare ''1'' (Some ''BUSINESS'')])"

definition offer_empty_cabin :: raw_offer where
  "offer_empty_cabin =
     ex_offer ''542.30'' [ex_segment ''1'' ''KWI'' ''DXB''] (ex_fares [ex_fare ''1'' (Some [])])"

definition offer_priced :: "string \<Rightarrow> raw_offer" where
  "offer_priced amount = ex_offer amount [ex_segment ''1'' ''KWI'' ''DXB''] None"

definition offer_no_itinerary :: raw_offer where
  "offer_no_itinerary = (offer_priced ''250'') \<lparr> o_itineraries := [] \<rparr>"

definition offer_no_segment :: raw_offer where
  "offer_no_segment = ex_offer ''250'' [] None"

definition env_answering :: "raw_offer list \<Rightarrow> env" where
  "env_answering offers =
     \<lparr> getAccessToken = Inr ''tok'', axios_get = (\<lambda>i token ps. Inr (Some offers)) \<rparr>"

definition env_no_token :: env where
  "env_no_token =
     \<lparr> getAccessToken = Inl (AxiosError None ''Request failed with status code 401''),
       axios_get = (\<lambda>i token ps. Inr (Some [])) \<rparr>"

definition empty_request :: request where
  "empty_request =
     \<lparr> r_tripType = Undefined, r_origin = Undefined, r_destination = Undefined,
       r_departureDate = Undefined, r_returnDate = Undefined, r_segments = None,
       r_adults = Undefined, r_currency = Undefined, r_max = Undefined,
       r_maxPrice = Undefined, r_travelClass = Undefined \<rparr>"

definition oneway_request :: request where
  "oneway_request =
     empty_request \<lparr> r_tripType := Str ''oneway'', r_origin := Str ''KWI'',
                     r_destination := Str ''DXB'', r_departureDate := Str ''2025-06-01'' \<rparr>"

definition roundtrip_request :: request where
  "roundtrip_request =
     empty_request \<lparr> r_tripType := Str ''roundtrip'', r_origin := Str ''KWI'',
                     r_destination := Str ''LHR'', r_departureDate := Str ''2025-07-01'',
                     r_returnDate := Str ''2025-07-15'' \<rparr>"

definition ex_leg :: "string \<Rightarrow> string \<Rightarrow> string \<Rightarrow> leg_spec" where
  "ex_leg src dst date = \<lparr> ls_origin = Str src, ls_destination = Str dst, ls_date = Str date \<rparr>"

definition multi_request :: "leg_spec list \<Rightarrow> request" where
  "multi_request segs =
     empty_request \<lparr> r_tripType := Str ''multi'', r_segments := Some (map Some segs) \<rparr>"

definition capped_request :: "request \<Rightarrow> scalar \<Rightarrow> request" where
  "capped_request req c = req \<lparr> r_maxPrice := c \<rparr>"

definition leg_without_date :: "string \<Rightarrow> string \<Rightarrow> leg_spec" where
  "leg_without_date src dst = \<lparr> ls_origin = Str src, ls_destination = Str dst, ls_date = Undefined \<rparr>"

definition no_destination_request :: request where
  "no_destination_request =
     empty_request \<lparr> r_tripType := Str ''oneway'', r_origin := Str ''KWI'',
                     r_departureDate := Str ''2025-06-01'' \<rparr>"

text \<open>The option that \<^verbatim>\<open>mapOfferToOption\<close> makes of \<open>offer_priced amount\<close>.\<close>

definition option_priced :: "string \<Rightarrow> flight_option" where
  "option_priced amount =
     \<lparr> opt_id = ''1'', opt_price = parseFloat amount, opt_currency = ''KWD'',
       opt_duration = ''PT2H45M'', opt_airline = ''KU'', opt_cabin = None,
       opt_brandedFare = None, opt_fareBasis = None, opt_checkedBags = None,
       opt_segments =
         [\<lparr> so_from = ''KWI'', so_to = ''DXB'', so_departureTime = ''2025-06-01T08:00:00'',
            so_arrivalTime = ''2025-06-01T10:45:00'', so_carrier = ''KU'',
            so_flightNumber = ''671'', so_cabin = IsNull, so_class = IsNull,
            so_brandedFare = IsNull, so_fareBasis = IsNull, so_checkedBags = IsNull \<rparr>] \<rparr>"

definition two_legs :: "leg_spec list" where
  "two_legs = [ex_leg ''KWI'' ''DXB'' ''2025-06-01'', ex_leg ''DXB'' ''LHR'' ''2025-06-05'']"

definition scenario_d :: request where
  "scenario_d =
     capped_request (multi_request [ex_leg ''KWI'' ''DXB'' ''2025-01-01'']) (Number (Fin 300))"

definition offer_inherited_id :: raw_offer where
  "offer_inherited_id = ex_offer ''250'' [ex_segment ''constructor'' ''KWI'' ''DXB''] None"

definition option_inherited_id :: flight_option where
  "option_inherited_id =
     \<lparr> opt_id = ''1'', opt_price = parseFloat ''250'', opt_currency = ''KWD'',
       opt_duration = ''PT2H45M'', opt_airline = ''KU'', opt_cabin = None,
       opt_brandedFare = None, opt_fareBasis = None, opt_checkedBags = None,
       opt_segments =
         [\<lparr> so_from = ''KWI'', so_to = ''DXB'', so_departureTime = ''2025-06-01T08:00:00'',
            so_arrivalTime = ''2025-06-01T10:45:00'', so_carrier = ''KU'',
            so_flightNumber = ''671'', so_cabin = Undef, so_class = Undef,
            so_brandedFare = Undef, so_fareBasis = Undef, so_checkedBags = Undef \<rparr>] \<rparr>"

definition null_leg_request :: request where
  "null_leg_request =
     empty_request \<lparr> r_tripType := Str ''multi'', r_segments := Some [None] \<rparr>"

lemmas parse_defs = parseFloat_def str_decimal_def is_ws_def is_digit_def digits_val_def

lemmas double_defs = to_double_def ratio_log2_def round_div_def ilog2.simps Let_def

lemmas ex_defs =
  ex_segment_def ex_fare_def ex_offer_def ex_fares_def offer_business_def
  offer_two_entries_def offer_empty_cabin_def offer_priced_def offer_no_itinerary_def
  offer_no_segment_def env_answering_def env_no_token_def empty_request_def
  oneway_request_def roundtrip_request_def ex_leg_def multi_request_def capped_request_def
  leg_without_date_def no_destination_request_def two_legs_def scenario_d_def
  offer_inherited_id_def null_leg_request_def


section \<open>The fare map\<close>

lemma fillFareMap_Nil: "fillFareMap [] = Map.empty"
  by (simp add: fillFareMap_def)

lemma fillFareMap_snoc:
  "fillFareMap (fds @ [fd]) = (fillFareMap fds)(fd_segmentId fd \<mapsto> fareInfoOf fd)"
  by (simp add: fillFareMap_def)

text \<open>What the map holds for a segment identifier: the value built from the last entry for it.\<close>

lemma fillFareMap_last:
  "fillFareMap fds S =
     (if filter (\<lambda>e. fd_segmentId e = S) fds = [] then None
      else Some (fareInfoOf (last (filter (\<lambda>e. fd_segmentId e = S) fds))))"
proof (induction fds rule: rev_induct)
  case Nil
  show ?case by (simp add: fillFareMap_Nil)
next
  case (snoc fd fds)
  then show ?case
    by (simp add: fillFareMap_snoc)
qed

lemma filter_key_distinct:
  assumes "distinct (map f xs)" and "x \<in> set xs"
  shows "filter (\<lambda>e. f e = f x) xs = [x]"
  using assms
proof (induction xs)
  case Nil
  then show ?case by simp
next
  case (Cons a xs)
  show ?case
  proof (cases "a = x")
    case True
    have "f x \<notin> f ` set xs" using Cons.prems(1) True by simp
    then have "\<forall>e\<in>set xs. f e \<noteq> f x" by (metis image_eqI)
    then have "filter (\<lambda>e. f e = f x) xs = []"
      by (simp add: filter_empty_conv)
    with True show ?thesis by simp
  next
    case False
    with Cons.prems have in_xs: "x \<in> set xs" by simp
    then have "f x \<in> f ` set xs" by simp
    moreover have "f a \<notin> f ` set xs" using Cons.prems(1) by simp
    ultimately have "f a \<noteq> f x" by metis
    then show ?thesis using Cons in_xs by simp
  qed
qed

lemma or_null_eq: "or_null x = (if x = Some [] then None else x)"
  by (cases x) auto

text \<open>
  Claim C1, as the code has it. When the first traveler-pricing record has a fare-detail
  entry for segment identifier \<open>S\<close>, the fare map has \<open>S\<close> as a key, and its value is built
  from the last entry for \<open>S\<close> (the entry itself when the identifiers of the list are
  distinct): cabin, class, brandedFare and fareBasis are the entry's, or null when the
  field is absent or the empty string; checkedBags is the quantity of the included checked
  bags, or null when it is absent. The map is a total function of the offer: building it
  cannot throw.
\<close>

theorem C1_fare_attribution:
  assumes "fd \<in> set (fareDetails offer)" and "S = fd_segmentId fd"
  shows "S \<in> dom (segmentFareMap offer) \<and>
         (\<exists>e a. e = last (filter (\<lambda>x. fd_segmentId x = S) (fareDetails offer)) \<and>
            e \<in> set (fareDetails offer) \<and> fd_segmentId e = S \<and>
            (distinct (map fd_segmentId (fareDetails offer)) \<longrightarrow> e = fd) \<and>
            segmentFareMap offer S = Some a \<and>
            fi_cabin a = (if fd_cabin e = Some [] then None else fd_cabin e) \<and>
            fi_class a = (if fd_class e = Some [] then None else fd_class e) \<and>
            fi_brandedFare a = (if fd_brandedFare e = Some [] then None else fd_brandedFare e) \<and>
            fi_fareBasis a = (if fd_fareBasis e = Some [] then None else fd_fareBasis e) \<and>
            fi_checkedBags a =
              (case fd_includedCheckedBags e of None \<Rightarrow> None | Some b \<Rightarrow> cb_quantity b))"
proof -
  let ?fds = "fareDetails offer"
  let ?es = "filter (\<lambda>x. fd_segmentId x = S) ?fds"
  let ?e = "last ?es"
  have ne: "?es \<noteq> []" using assms by (auto simp: filter_empty_conv)
  then have "?e \<in> set ?es" by (rule last_in_set)
  then have e_in: "?e \<in> set ?fds" and e_id: "fd_segmentId ?e = S" by auto
  have look: "segmentFareMap offer S = Some (fareInfoOf ?e)"
    using ne by (simp add: segmentFareMap_def fillFareMap_last)
  have dist: "distinct (map fd_segmentId ?fds) \<longrightarrow> ?e = fd"
    using filter_key_distinct [of fd_segmentId ?fds fd] assms by simp
  have dom: "S \<in> dom (segmentFareMap offer)" using look by auto
  show ?thesis
    using dom e_in e_id dist look by (simp add: fareInfoOf_def or_null_eq)
qed

text \<open>
  The theorem on the offer priced \<^verbatim>\<open>"542.30"\<close>: its one fare-detail entry is for segment
  \<^verbatim>\<open>"1"\<close>, and the map has that key.
\<close>

theorem C1_fare_attribution_witness:
  "ex_fare ''1'' (Some ''BUSINESS'') \<in> set (fareDetails offer_business) \<and>
   ''1'' = fd_segmentId (ex_fare ''1'' (Some ''BUSINESS'')) \<and>
   ''1'' \<in> dom (segmentFareMap offer_business)"
proof -
  have h1: "ex_fare ''1'' (Some ''BUSINESS'') \<in> set (fareDetails offer_business)"
    by (simp add: fareDetails_def ex_defs)
  have h2: "''1'' = fd_segmentId (ex_fare ''1'' (Some ''BUSINESS''))"
    by (simp add: ex_defs)
  from C1_fare_attribution [OF h1 h2] h1 h2 show ?thesis by blast
qed

text \<open>
  Claim C1 as the specification words it fails on two offers. With two entries for segment
  \<^verbatim>\<open>"1"\<close>, cabin \<^verbatim>\<open>"ECONOMY"\<close> then \<^verbatim>\<open>"BUSINESS"\<close>, the map holds the second entry's
  cabin and not the first's. With one entry whose cabin is present as the empty string,
  the map holds null and not the empty string.
\<close>

theorem C1_counterexample:
  "ex_fare ''1'' (Some ''ECONOMY'') \<in> set (fareDetails offer_two_entries) \<and>
   map_option fi_cabin (segmentFareMap offer_two_entries ''1'') = Some (Some ''BUSINESS'') \<and>
   ex_fare ''1'' (Some []) \<in> set (fareDetails offer_empty_cabin) \<and>
   fd_cabin (ex_fare ''1'' (Some [])) = Some [] \<and>
   map_option fi_cabin (segmentFareMap offer_empty_cabin ''1'') = Some None"
  by (simp add: segmentFareMap_def fillFareMap_def fareDetails_def fareInfoOf_def ex_defs)

section \<open>Normalizing offers\<close>

lemma fareLookup_empty:
  "fareLookup Map.empty k = (if k \<in> set object_prototype_names then Foreign else NoFare)"
  by (simp add: fareLookup_def)

lemma mapOfferToOption_ok:
  assumes "o_itineraries offer = it # its" and "it_segments it = s # ss"
  shows "mapOfferToOption offer =
     Inr \<lparr> opt_id = o_id offer,
           opt_price = parseFloat (pr_total (o_price offer)),
           opt_currency = pr_currency (o_price offer),
           opt_duration = it_duration it,
           opt_airline = s_carrierCode s,
           opt_cabin = offerMember fi_cabin (fareLookup (segmentFareMap offer) (s_id s)),
           opt_brandedFare =
             offerMember fi_brandedFare (fareLookup (segmentFareMap offer) (s_id s)),
           opt_fareBasis = offerMember fi_fareBasis (fareLookup (segmentFareMap offer) (s_id s)),
           opt_checkedBags =
             offerMember fi_checkedBags (fareLookup (segmentFareMap offer) (s_id s)),
           opt_segments = map (mapSegment (segmentFareMap offer)) (s # ss) \<rparr>"
  using assms by (simp add: mapOfferToOption_def Let_def)

lemma mapOfferToOption_malformed:
  assumes "o_itineraries offer = [] \<or>
           (\<exists>it its. o_itineraries offer = it # its \<and> it_segments it = [])"
  shows "\<exists>err. mapOfferToOption offer = Inl err"
  using assms by (auto simp: mapOfferToOption_def)

lemma mapOffers_fails:
  assumes "offer \<in> set offers" and "mapOfferToOption offer = Inl err0"
  shows "\<exists>err. mapOffers offers = Inl err"
  using assms
proof (induction offers)
  case Nil
  then show ?case by simp
next
  case (Cons a offers)
  then show ?case
    by (cases "mapOfferToOption a"; cases "mapOffers offers") auto
qed

text \<open>When the map succeeds, the option of each offer is in the result.\<close>

lemma mapOffers_mem:
  assumes "offer \<in> set offers" and "mapOffers offers = Inr opts"
    and "mapOfferToOption offer = Inr opt"
  shows "opt \<in> set opts"
  using assms
proof (induction offers arbitrary: opts)
  case Nil
  then show ?case by simp
next
  case (Cons a offers)
  from Cons.prems(2) obtain x xs where
    a: "mapOfferToOption a = Inr x" and rest: "mapOffers offers = Inr xs" and opts: "opts = x # xs"
    by (cases "mapOfferToOption a"; cases "mapOffers offers") auto
  show ?case
  proof (cases "offer = a")
    case True
    with a Cons.prems(3) opts show ?thesis by simp
  next
    case False
    with Cons.prems(1) have "offer \<in> set offers" by simp
    from Cons.IH [OF this rest Cons.prems(3)] opts show ?thesis by simp
  qed
qed

lemma legOptions_ok:
  assumes "axios_get e i tok ps = Inr d" and "mapOffers (dataOrEmpty d) = Inr opts"
  shows "legOptions e i tok mp ps = Inr (budgetFilter mp opts)"
  using assms by (simp add: legOptions_def)

lemma legOptions_malformed:
  assumes "axios_get e i tok ps = Inr (Some offers)" and "offer \<in> set offers"
    and "mapOfferToOption offer = Inl err0"
  shows "\<exists>err. legOptions e i tok mp ps = Inl err"
proof -
  from mapOffers_fails [OF assms(2,3)] obtain err where "mapOffers offers = Inl err" by blast
  then show ?thesis using assms(1) by (simp add: legOptions_def dataOrEmpty_def)
qed

text \<open>The budget filter never keeps an option whose price is \<open>NaN\<close>.\<close>

lemma budgetFilter_NaN:
  assumes "opt_price opt = NaN" and "truthy mp"
  shows "opt \<notin> set (budgetFilter mp opts)"
  using assms by (simp add: budgetFilter_def)

lemma budgetFilter_falsy: "\<not> truthy mp \<Longrightarrow> budgetFilter mp opts = opts"
  by (simp add: budgetFilter_def)

subsection \<open>The example prices\<close>

lemma decimal_250: "str_decimal ''250'' = Some (250, 1, [])"
  by (simp add: str_decimal_def is_digit_def digits_val_def)

lemma double_250: "to_double 250 1 = Fin 250"
  by (simp add: double_defs)

lemma price_250: "parseFloat ''250'' = Fin 250"
  by (simp add: parseFloat_def is_ws_def decimal_250 double_250 del: One_nat_def)

lemma decimal_400: "str_decimal ''400'' = Some (400, 1, [])"
  by (simp add: str_decimal_def is_digit_def digits_val_def)

lemma double_400: "to_double 400 1 = Fin 400"
  by (simp add: double_defs)

lemma price_400: "parseFloat ''400'' = Fin 400"
  by (simp add: parseFloat_def is_ws_def decimal_400 double_400 del: One_nat_def)

lemma price_not_a_number: "parseFloat ''N/A'' = NaN"
  by (simp add: parse_defs)

text \<open>
  The conversion rounds: \<^verbatim>\<open>0.1\<close> is not a binary fraction, \<^verbatim>\<open>9007199254740993\<close> lies
  halfway between two floats and goes to the even one, and a seventeenth decimal after
  \<^verbatim>\<open>300\<close> is lost.
\<close>

lemma double_tenth: "to_double 1 10 = Fin (3602879701896397 / 36028797018963968)"
  by (simp add: double_defs)

lemma double_halfway: "to_double 9007199254740993 1 = Fin 9007199254740992"
  by (simp add: double_defs)

lemma double_300: "to_double 30000000000000000001 100000000000000000 = Fin 300"
  by (simp add: double_defs)

lemma decimal_300: "str_decimal ''300.00000000000000001'' =
    Some (30000000000000000001, 100000000000000000, [])"
  by (simp add: str_decimal_def is_digit_def digits_val_def)

lemma price_300: "parseFloat ''300.00000000000000001'' = Fin 300"
  by (simp add: parseFloat_def is_ws_def decimal_300 double_300 del: One_nat_def)

text \<open>A literal beyond the largest float is read as \<open>Infinity\<close>.\<close>

lemma decimal_huge: "str_decimal ''1e309'' = Some (10 ^ 309, 1, [])"
  by (simp add: str_decimal_def is_digit_def digits_val_def)

lemma double_huge: "to_double (10 ^ 309) 1 = PosInf"
  by (simp add: double_defs)

lemma price_huge: "parseFloat ''1e309'' = PosInf"
proof -
  have "parseFloat ''1e309'' = to_double (10 ^ 309) 1"
    by (simp add: parseFloat_def is_ws_def decimal_huge del: One_nat_def)
  then show ?thesis by (simp only: double_huge)
qed

lemma mapOfferToOption_priced: "mapOfferToOption (offer_priced a) = Inr (option_priced a)"
  by (simp add: mapOfferToOption_def option_priced_def segmentFareMap_def fillFareMap_def
      fareDetails_def mapSegment_def fallbackFare_def fareLookup_def object_prototype_names_def
      ex_defs)

section \<open>The request after destructuring\<close>

lemma destructure_fields [simp]:
  "r_origin (destructure req) = r_origin req"
  "r_destination (destructure req) = r_destination req"
  "r_departureDate (destructure req) = r_departureDate req"
  "r_returnDate (destructure req) = r_returnDate req"
  "r_segments (destructure req) = r_segments req"
  "r_maxPrice (destructure req) = r_maxPrice req"
  "r_travelClass (destructure req) = r_travelClass req"
  by (simp_all add: destructure_def)

lemma destructure_tripType:
  "r_tripType (destructure req) = (if r_tripType req = Undefined then Str ''oneway'' else r_tripType req)"
  by (simp add: destructure_def dflt_def)

lemma destructure_tripType_Str [simp]:
  "r_tripType req = Str t \<Longrightarrow> r_tripType (destructure req) = Str t"
  by (simp add: destructure_tripType)

lemma withOptional_fields [simp]:
  "p_maxPrice (withOptional mp tc ps) = (if truthy mp then Some mp else p_maxPrice ps)"
  "p_travelClass (withOptional mp tc ps) = (if truthy tc then Some tc else p_travelClass ps)"
  "p_returnDate (withOptional mp tc ps) = p_returnDate ps"
  by (simp_all add: withOptional_def Let_def)

lemma singleParams_fields [simp]:
  "p_maxPrice (singleParams b) = (if truthy (r_maxPrice b) then Some (r_maxPrice b) else None)"
  "p_travelClass (singleParams b) =
     (if truthy (r_travelClass b) then Some (r_travelClass b) else None)"
  "p_returnDate (singleParams b) =
     (if r_tripType b = Str ''roundtrip'' then Some (r_returnDate b) else None)"
  by (simp_all add: singleParams_def baseParams_def Let_def)

lemma legParams_fields [simp]:
  "p_maxPrice (legParams b seg) = (if truthy (r_maxPrice b) then Some (r_maxPrice b) else None)"
  "p_travelClass (legParams b seg) =
     (if truthy (r_travelClass b) then Some (r_travelClass b) else None)"
  "p_returnDate (legParams b seg) = None"
  by (simp_all add: legParams_def baseParams_def)

section \<open>The multi-city loop\<close>

lemma upt_0_Suc_map: "map f [0..<Suc n] = f 0 # map (\<lambda>j. f (Suc j)) [0..<n]"
  by (simp add: upt_conv_Cons map_Suc_upt [symmetric] del: upt_Suc)

lemma multiLoop_snd_step:
  assumes "leg_ok seg" and "legOptions e i tok (r_maxPrice b) (legParams b seg) = Inr options"
  shows "snd (multiLoop e tok b i (Some seg # rest) legs) =
         snd (multiLoop e tok b (i + 1) rest (legs @ [mkLeg (i + 1) seg options]))"
    and "fst (multiLoop e tok b i (Some seg # rest) legs) =
         OffersCall tok (legParams b seg) #
           fst (multiLoop e tok b (i + 1) rest (legs @ [mkLeg (i + 1) seg options]))"
  using assms by (simp_all add: case_prod_beta)

lemma multiLoop_ok:
  assumes "\<forall>j<length segs. leg_ok (segs ! j) \<and>
             legOptions e (i + j) tok (r_maxPrice b) (legParams b (segs ! j)) = Inr (opts j)"
  shows "multiLoop e tok b i (map Some segs) legs =
           (map (\<lambda>seg. OffersCall tok (legParams b seg)) segs,
            Inr (legs @ map (\<lambda>j. mkLeg (i + j + 1) (segs ! j) (opts j)) [0..<length segs]))"
  using assms
proof (induction segs arbitrary: i legs opts)
  case Nil
  show ?case by simp
next
  case (Cons seg rest)
  from Cons.prems have ok: "leg_ok seg"
    and here: "legOptions e i tok (r_maxPrice b) (legParams b seg) = Inr (opts 0)"
    by auto
  have later: "\<forall>j<length rest. leg_ok (rest ! j) \<and>
      legOptions e (i + 1 + j) tok (r_maxPrice b) (legParams b (rest ! j)) = Inr (opts (Suc j))"
    using Cons.prems by auto
  have rec: "multiLoop e tok b (i + 1) (map Some rest) (legs @ [mkLeg (i + 1) seg (opts 0)]) =
      (map (\<lambda>seg. OffersCall tok (legParams b seg)) rest,
       Inr ((legs @ [mkLeg (i + 1) seg (opts 0)]) @
            map (\<lambda>j. mkLeg (i + 1 + j + 1) (rest ! j) (opts (Suc j))) [0..<length rest]))"
    by (rule Cons.IH [OF later])
  show ?case
    using ok here rec by (simp add: upt_0_Suc_map del: upt_Suc)
qed

lemma multiLoop_Inr:
  assumes "snd (multiLoop e tok b i (map Some segs) legs) = Inr legs'"
  shows "\<exists>opts. legs' = legs @ map (\<lambda>j. mkLeg (i + j + 1) (segs ! j) (opts j)) [0..<length segs]"
  using assms
proof (induction segs arbitrary: i legs)
  case Nil
  then show ?case by simp
next
  case (Cons seg rest)
  from Cons.prems have ok: "leg_ok seg"
    by (auto split: if_splits)
  from Cons.prems ok obtain options where
    here: "legOptions e i tok (r_maxPrice b) (legParams b seg) = Inr options"
    by (cases "legOptions e i tok (r_maxPrice b) (legParams b seg)") auto
  from Cons.prems multiLoop_snd_step(1) [OF ok here]
  have "snd (multiLoop e tok b (i + 1) (map Some rest) (legs @ [mkLeg (i + 1) seg options])) =
      Inr legs'"
    by simp
  from Cons.IH [OF this] obtain opts where
    eq: "legs' = (legs @ [mkLeg (i + 1) seg options]) @
           map (\<lambda>j. mkLeg (i + 1 + j + 1) (rest ! j) (opts j)) [0..<length rest]"
    by blast
  let ?opts = "\<lambda>j. case j of 0 \<Rightarrow> options | Suc k \<Rightarrow> opts k"
  have "legs' = legs @ map (\<lambda>j. mkLeg (i + j + 1) ((seg # rest) ! j) (?opts j))
                         [0..<length (seg # rest)]"
    using eq by (simp add: upt_0_Suc_map del: upt_Suc)
  then show ?case by blast
qed

text \<open>The only response the loop itself sends is the validation error.\<close>

lemma multiLoop_Sent:
  assumes "snd (multiLoop e tok b i segs legs) = Inl (Sent r)"
  shows "r = bad_request each_segment_msg"
  using assms
proof (induction segs arbitrary: i legs)
  case Nil
  then show ?case by simp
next
  case (Cons x rest)
  show ?case
  proof (cases x)
    case None
    with Cons.prems show ?thesis by simp
  next
    case (Some seg)
    show ?thesis
    proof (cases "leg_ok seg")
      case False
      with Some Cons.prems show ?thesis by simp
    next
      case True
      show ?thesis
      proof (cases "legOptions e i tok (r_maxPrice b) (legParams b seg)")
        case (Inl err)
        with True Some Cons.prems show ?thesis by simp
      next
        case (Inr options)
        from Cons.prems Some multiLoop_snd_step(1) [OF True Inr]
        have "snd (multiLoop e tok b (i + 1) rest (legs @ [mkLeg (i + 1) seg options])) =
            Inl (Sent r)"
          by simp
        then show ?thesis by (rule Cons.IH)
      qed
    qed
  qed
qed


lemma multiLoop_throws:
  assumes "k < length segs" and "\<forall>j\<le>k. leg_ok (segs ! j)"
    and "legOptions e (i + k) tok (r_maxPrice b) (legParams b (segs ! k)) = Inl err0"
  shows "\<exists>err. snd (multiLoop e tok b i (map Some segs @ later) legs) = Inl (Threw err)"
  using assms
proof (induction segs arbitrary: i k legs)
  case Nil
  then show ?case by simp
next
  case (Cons seg rest)
  from Cons.prems(2) have ok: "leg_ok seg" by auto
  show ?case
  proof (cases "legOptions e i tok (r_maxPrice b) (legParams b seg)")
    case (Inl err)
    with ok show ?thesis by simp
  next
    case (Inr options)
    then obtain k' where k: "k = Suc k'"
      using Cons.prems(3) by (cases k) auto
    have a: "k' < length rest" using Cons.prems(1) k by simp
    have b: "\<forall>j\<le>k'. leg_ok (rest ! j)" using Cons.prems(2) k by auto
    have c: "legOptions e (i + 1 + k') tok (r_maxPrice b) (legParams b (rest ! k')) = Inl err0"
      using Cons.prems(3) k by simp
    show ?thesis
      using Cons.IH [OF a b c, of "legs @ [mkLeg (i + 1) seg options]"]
        multiLoop_snd_step(1) [OF ok Inr, of "map Some rest @ later" legs]
      by simp
  qed
qed

text \<open>
  The searches the loop issues are for legs before the first one that is not valid, with
  the parameters of those legs.
\<close>

lemma multiLoop_calls_before:
  assumes "k < length segs" and "\<not> leg_valid (segs ! k)"
  shows "set (fst (multiLoop e tok b i segs legs)) \<subseteq>
           {OffersCall tok (legParams b seg) | seg j. j < k \<and> segs ! j = Some seg}"
  using assms
proof (induction segs arbitrary: i k legs)
  case Nil
  then show ?case by simp
next
  case (Cons x rest)
  show ?case
  proof (cases x)
    case None
    then show ?thesis by simp
  next
    case (Some seg)
    show ?thesis
    proof (cases "leg_ok seg")
      case False
      with Some show ?thesis by simp
    next
      case True
      with Some Cons.prems(2) obtain k' where k: "k = Suc k'"
        by (cases k) (auto simp: leg_valid_def)
      have a: "k' < length rest" and b: "\<not> leg_valid (rest ! k')"
        using Cons.prems k by auto
      show ?thesis
      proof (cases "legOptions e i tok (r_maxPrice b) (legParams b seg)")
        case (Inl err)
        have f: "fst (multiLoop e tok b i (x # rest) legs) = [OffersCall tok (legParams b seg)]"
          using True Some Inl by simp
        have "0 < k \<and> (x # rest) ! 0 = Some seg" using k Some by simp
        then have "OffersCall tok (legParams b seg) \<in>
            {OffersCall tok (legParams b seg) | seg j. j < k \<and> (x # rest) ! j = Some seg}"
          by blast
        with f show ?thesis by simp
      next
        case (Inr options)
        have f: "fst (multiLoop e tok b i (x # rest) legs) =
            OffersCall tok (legParams b seg) #
              fst (multiLoop e tok b (i + 1) rest (legs @ [mkLeg (i + 1) seg options]))"
          using multiLoop_snd_step(2) [OF True Inr] Some by simp
        have sub: "set (fst (multiLoop e tok b (i + 1) rest (legs @ [mkLeg (i + 1) seg options])))
            \<subseteq> {OffersCall tok (legParams b seg) | seg j. j < k' \<and> rest ! j = Some seg}"
          by (rule Cons.IH [OF a b])
        have shift: "{OffersCall tok (legParams b seg) | seg j. j < k' \<and> rest ! j = Some seg}
            \<subseteq> {OffersCall tok (legParams b seg) | seg j. j < k \<and> (x # rest) ! j = Some seg}"
        proof
          fix c
          assume "c \<in> {OffersCall tok (legParams b seg) | seg j. j < k' \<and> rest ! j = Some seg}"
          then obtain sg j where c: "c = OffersCall tok (legParams b sg)" "j < k'" "rest ! j = Some sg"
            by blast
          then have "Suc j < k \<and> (x # rest) ! Suc j = Some sg" using k by simp
          with c(1) show "c \<in> {OffersCall tok (legParams b seg) | seg j.
              j < k \<and> (x # rest) ! j = Some seg}"
            by blast
        qed
        have head: "OffersCall tok (legParams b seg) \<in>
            {OffersCall tok (legParams b seg) | seg j. j < k \<and> (x # rest) ! j = Some seg}"
        proof -
          have "0 < k \<and> (x # rest) ! 0 = Some seg" using k Some by simp
          then show ?thesis by blast
        qed
        from f sub shift head show ?thesis by auto
      qed
    qed
  qed
qed

lemma multiLoop_calls:
  "set (fst (multiLoop e tok b i segs legs)) \<subseteq>
     {OffersCall tok (legParams b seg) | seg. Some seg \<in> set segs}"
proof (induction segs arbitrary: i legs)
  case Nil
  show ?case by simp
next
  case (Cons x rest)
  show ?case
  proof (cases x)
    case None
    then show ?thesis by simp
  next
    case (Some seg)
    show ?thesis
    proof (cases "leg_ok seg")
      case False
      with Some show ?thesis by simp
    next
      case True
      show ?thesis
      proof (cases "legOptions e i tok (r_maxPrice b) (legParams b seg)")
        case (Inl err)
        with True Some show ?thesis by auto
      next
        case (Inr options)
        show ?thesis
          using Cons.IH [of "i + 1" "legs @ [mkLeg (i + 1) seg options]"]
            multiLoop_snd_step(2) [OF True Inr, of rest legs] Some
          by auto
      qed
    qed
  qed
qed

section \<open>The handler, branch by branch\<close>

lemma search_flights_no_token:
  assumes "getAccessToken e = Inl err"
  shows "search_flights e req = ([TokenCall], failure err)"
  using assms by (simp add: search_flights_def)

lemma search_flights_single:
  assumes "single_ok (destructure req)" and "getAccessToken e = Inr tok"
  shows "search_flights e req =
           ([TokenCall, OffersCall tok (singleParams (destructure req))],
            case legOptions e 0 tok (r_maxPrice req) (singleParams (destructure req)) of
              Inl err \<Rightarrow> failure err
            | Inr options \<Rightarrow> singleResponse (destructure req) options)"
proof -
  let ?b = "destructure req"
  have s: "singleSearch e tok ?b =
      ([OffersCall tok (singleParams ?b)],
       case legOptions e 0 tok (r_maxPrice req) (singleParams ?b) of
         Inl err \<Rightarrow> Threw err
       | Inr options \<Rightarrow> Sent (singleResponse ?b options))"
    using assms(1) unfolding single_ok_def singleSearch_def by auto
  have t: "r_tripType ?b = Str ''oneway'' \<or> r_tripType ?b = Str ''roundtrip''"
    using assms(1) by (simp add: single_ok_def)
  show ?thesis
    unfolding search_flights_def Let_def using assms(2) t s
    by (auto split: sum.splits)
qed

lemma search_flights_multi:
  assumes "r_tripType req = Str ''multi''" and "r_segments req = Some segs" and "segs \<noteq> []"
    and "getAccessToken e = Inr tok"
  shows "search_flights e req =
           (TokenCall # fst (multiLoop e tok (destructure req) 0 segs []),
            case snd (multiLoop e tok (destructure req) 0 segs []) of
              Inl (Threw err) \<Rightarrow> failure err
            | Inl (Sent r) \<Rightarrow> r
            | Inr legs \<Rightarrow> multiResponse (destructure req) legs)"
proof -
  let ?b = "destructure req"
  obtain seg rest where segs: "segs = seg # rest"
    using assms(3) by (cases segs) auto
  have m: "multiSearch e tok ?b =
      (fst (multiLoop e tok ?b 0 segs []),
       case snd (multiLoop e tok ?b 0 segs []) of
         Inl out \<Rightarrow> out
       | Inr legs \<Rightarrow> Sent (multiResponse ?b legs))"
    using assms(2) segs by (simp add: multiSearch_def case_prod_beta)
  have t: "r_tripType ?b = Str ''multi''" using assms(1) by simp
  show ?thesis
    unfolding search_flights_def Let_def using assms(4) t m
    by (auto split: sum.splits outcome.splits)
qed

lemma search_flights_multi_empty:
  assumes "r_tripType req = Str ''multi''" and "r_segments req = None \<or> r_segments req = Some []"
    and "getAccessToken e = Inr tok"
  shows "search_flights e req =
           ([TokenCall], bad_request ''segments array is required for multi-city searches'')"
proof -
  have t: "r_tripType (destructure req) = Str ''multi''" using assms(1) by simp
  show ?thesis
    unfolding search_flights_def Let_def using assms(2,3) t
    by (auto simp: multiSearch_def)
qed

lemma search_flights_multi_ok:
  assumes "r_tripType req = Str ''multi''" and "r_segments req = Some (map Some segs)"
    and "segs \<noteq> []" and "getAccessToken e = Inr tok"
    and "\<forall>i<length segs. leg_ok (segs ! i) \<and>
           axios_get e i tok (legParams (destructure req) (segs ! i)) = Inr (ds i) \<and>
           mapOffers (dataOrEmpty (ds i)) = Inr (os i)"
  shows "search_flights e req =
           (TokenCall # map (\<lambda>seg. OffersCall tok (legParams (destructure req) seg)) segs,
            multiResponse (destructure req)
              (map (\<lambda>i. mkLeg (i + 1) (segs ! i) (budgetFilter (r_maxPrice req) (os i)))
                 [0..<length segs]))"
proof -
  let ?b = "destructure req"
  have ne: "map Some segs \<noteq> []" using assms(3) by simp
  have "\<forall>j<length segs. leg_ok (segs ! j) \<and>
      legOptions e (0 + j) tok (r_maxPrice ?b) (legParams ?b (segs ! j)) =
        Inr (budgetFilter (r_maxPrice req) (os j))"
    using assms(5) by (simp add: legOptions_ok)
  from multiLoop_ok [OF this, of "[]"]
  show ?thesis
    using search_flights_multi [OF assms(1,2) ne assms(4)] by simp
qed

subsection \<open>The calls of a run\<close>

text \<open>The single-leg branch issues its one search exactly when both checks pass.\<close>

lemma singleSearch_calls:
  "fst (singleSearch e tok b) =
     (if truthy (r_origin b) \<and> truthy (r_destination b) \<and> truthy (r_departureDate b) \<and>
         (r_tripType b = Str ''roundtrip'' \<longrightarrow> truthy (r_returnDate b))
      then [OffersCall tok (singleParams b)] else [])"
  by (auto simp: singleSearch_def)

lemma offers_calls:
  assumes "OffersCall tok ps \<in> set (fst (search_flights e req))"
  shows "(single_ok (destructure req) \<and> ps = singleParams (destructure req)) \<or>
         (r_tripType (destructure req) = Str ''multi'' \<and>
          (\<exists>seg. ps = legParams (destructure req) seg))"
proof (cases "getAccessToken e")
  case (Inl err)
  with assms show ?thesis by (simp add: search_flights_no_token)
next
  case (Inr t)
  let ?b = "destructure req"
  show ?thesis
  proof (cases "r_tripType ?b = Str ''oneway'' \<or> r_tripType ?b = Str ''roundtrip''")
    case True
    have "fst (search_flights e req) = TokenCall # fst (singleSearch e t ?b)"
      using Inr True by (simp add: search_flights_def Let_def case_prod_beta)
    with assms True show ?thesis
      by (auto simp: singleSearch_calls single_ok_def split: if_splits)
  next
    case False
    show ?thesis
    proof (cases "r_tripType ?b = Str ''multi''")
      case multi: True
      have f: "fst (search_flights e req) = TokenCall # fst (multiSearch e t ?b)"
        using Inr False multi by (simp add: search_flights_def Let_def case_prod_beta)
      show ?thesis
      proof (cases "r_segments ?b")
        case None
        with f assms show ?thesis by (simp add: multiSearch_def)
      next
        case (Some segs)
        show ?thesis
        proof (cases segs)
          case Nil
          with Some f assms show ?thesis by (simp add: multiSearch_def)
        next
          case (Cons seg rest)
          with Some f assms
          have "OffersCall tok ps \<in> set (fst (multiLoop e t ?b 0 segs []))"
            by (simp add: multiSearch_def case_prod_beta)
          with multiLoop_calls [of e t ?b 0 segs "[]"] multi show ?thesis by blast
        qed
      qed
    next
      case other: False
      have "fst (search_flights e req) = [TokenCall]"
        using Inr False other by (simp add: search_flights_def Let_def)
      with assms show ?thesis by simp
    qed
  qed
qed

subsection \<open>A falsy ceiling\<close>

lemma legOptions_falsy:
  assumes "\<not> truthy v" and "\<not> truthy w"
  shows "legOptions e i tok v ps = legOptions e i tok w ps"
  using assms by (simp add: legOptions_def budgetFilter_def split: sum.splits)

lemma legParams_falsy:
  assumes "\<not> truthy v"
  shows "legParams (b \<lparr> r_maxPrice := v \<rparr>) seg = legParams (b \<lparr> r_maxPrice := Undefined \<rparr>) seg"
  using assms by (simp add: legParams_def withOptional_def baseParams_def)

lemma multiLoop_falsy:
  assumes "\<not> truthy v"
  shows "multiLoop e tok (b \<lparr> r_maxPrice := v \<rparr>) i segs legs =
         multiLoop e tok (b \<lparr> r_maxPrice := Undefined \<rparr>) i segs legs"
proof (induction segs arbitrary: i legs)
  case Nil
  show ?case by simp
next
  case (Cons x rest)
  show ?case
  proof (cases x)
    case None
    then show ?thesis by simp
  next
    case (Some seg)
    let ?ps = "legParams (b \<lparr> r_maxPrice := Undefined \<rparr>) seg"
    have p: "legParams (b \<lparr> r_maxPrice := v \<rparr>) seg = ?ps"
      using assms by (rule legParams_falsy)
    have l: "legOptions e i tok v ?ps = legOptions e i tok Undefined ?ps"
      by (rule legOptions_falsy) (use assms in simp_all)
    show ?thesis
    proof (cases "leg_ok seg")
      case False
      with Some show ?thesis by simp
    next
      case True
      show ?thesis
      proof (cases "legOptions e i tok Undefined ?ps")
        case (Inl err)
        have "legOptions e i tok v ?ps = Inl err" using l Inl by simp
        then show ?thesis using True p Inl Some by simp
      next
        case (Inr options)
        have "legOptions e i tok v ?ps = Inr options" using l Inr by simp
        then show ?thesis
          using True p Inr Some Cons.IH [of "i + 1" "legs @ [mkLeg (i + 1) seg options]"]
          by simp
      qed
    qed
  qed
qed

lemma search_flights_falsy:
  assumes "\<not> truthy v"
  shows "search_flights e (req \<lparr> r_maxPrice := v \<rparr>) =
         search_flights e (req \<lparr> r_maxPrice := Undefined \<rparr>)"
proof -
  let ?b = "destructure req"
  let ?bv = "?b \<lparr> r_maxPrice := v \<rparr>"
  let ?bu = "?b \<lparr> r_maxPrice := Undefined \<rparr>"
  have dv: "destructure (req \<lparr> r_maxPrice := v \<rparr>) = ?bv"
    by (simp add: destructure_def)
  have du: "destructure (req \<lparr> r_maxPrice := Undefined \<rparr>) = ?bu"
    by (simp add: destructure_def)
  have sp: "singleParams ?bv = singleParams ?bu"
    using assms by (simp add: singleParams_def withOptional_def baseParams_def Let_def)
  have sr: "singleResponse ?bv = singleResponse ?bu"
    by (simp add: singleResponse_def fun_eq_iff)
  have lo: "legOptions e 0 tok v ps = legOptions e 0 tok Undefined ps" for tok ps
    by (rule legOptions_falsy) (use assms in simp_all)
  have single: "singleSearch e tok ?bv = singleSearch e tok ?bu" for tok
    unfolding singleSearch_def sp sr by (simp add: lo)
  have mr: "multiResponse ?bv = multiResponse ?bu"
    using assms by (simp add: multiResponse_def fun_eq_iff)
  have multi: "multiSearch e tok ?bv = multiSearch e tok ?bu" for tok
    unfolding multiSearch_def mr multiLoop_falsy [OF assms] by simp
  show ?thesis
    unfolding search_flights_def dv du Let_def single multi
    by (cases "getAccessToken e") simp_all
qed

lemma singleSearch_Sent:
  assumes "snd (singleSearch e t b) = Sent r"
  shows "(\<exists>msg. r = bad_request msg) \<or> (\<exists>os. r = singleResponse b os)"
proof (cases "legOptions e 0 t (r_maxPrice b) (singleParams b)")
  case (Inl err)
  with assms show ?thesis by (auto simp: singleSearch_def split: if_splits)
next
  case (Inr options)
  with assms show ?thesis by (auto simp: singleSearch_def split: if_splits)
qed

lemma multiSearch_Sent:
  assumes "snd (multiSearch e t b) = Sent r"
  shows "(\<exists>msg. r = bad_request msg) \<or> (\<exists>legs. r = multiResponse b legs)"
proof (cases "r_segments b")
  case None
  with assms show ?thesis by (auto simp: multiSearch_def)
next
  case (Some segs)
  show ?thesis
  proof (cases segs)
    case Nil
    with Some assms show ?thesis by (auto simp: multiSearch_def)
  next
    case (Cons seg rest)
    with Some have m: "snd (multiSearch e t b) =
        (case snd (multiLoop e t b 0 segs []) of
           Inl out \<Rightarrow> out | Inr legs \<Rightarrow> Sent (multiResponse b legs))"
      by (simp add: multiSearch_def case_prod_beta)
    show ?thesis
    proof (cases "snd (multiLoop e t b 0 segs [])")
      case (Inl out)
      with m assms have "snd (multiLoop e t b 0 segs []) = Inl (Sent r)" by simp
      then have "r = bad_request each_segment_msg" by (rule multiLoop_Sent)
      then show ?thesis by blast
    next
      case (Inr legs)
      with m assms show ?thesis by auto
    qed
  qed
qed

text \<open>Every response of the handler is one of four: the three kinds of body.\<close>

lemma search_flights_responses:
  "(\<exists>err. snd (search_flights e req) = failure err) \<or>
   (\<exists>msg. snd (search_flights e req) = bad_request msg) \<or>
   (\<exists>os. snd (search_flights e req) = singleResponse (destructure req) os) \<or>
   (\<exists>legs. snd (search_flights e req) = multiResponse (destructure req) legs)"
proof (cases "getAccessToken e")
  case (Inl err)
  then have "snd (search_flights e req) = failure err"
    by (simp add: search_flights_no_token)
  then show ?thesis by blast
next
  case (Inr t)
  let ?b = "destructure req"
  let ?branch = "if r_tripType ?b = Str ''oneway'' \<or> r_tripType ?b = Str ''roundtrip''
                 then singleSearch e t ?b
                 else if r_tripType ?b = Str ''multi'' then multiSearch e t ?b
                 else ([], Sent (bad_request
                        (''tripType must be '' @ quoted ''oneway'' @ '', ''
                           @ quoted ''roundtrip'' @ '', or '' @ quoted ''multi'')))"
  have run: "snd (search_flights e req) =
      (case snd ?branch of Threw err \<Rightarrow> failure err | Sent r \<Rightarrow> r)"
    using Inr by (simp add: search_flights_def Let_def case_prod_beta)
  show ?thesis
  proof (cases "snd ?branch")
    case (Threw err)
    with run have "snd (search_flights e req) = failure err" by simp
    then show ?thesis by blast
  next
    case (Sent r)
    with run have r: "snd (search_flights e req) = r" by simp
    have "(\<exists>msg. r = bad_request msg) \<or> (\<exists>os. r = singleResponse ?b os) \<or>
          (\<exists>legs. r = multiResponse ?b legs)"
      using Sent singleSearch_Sent [of e t ?b r] multiSearch_Sent [of e t ?b r]
      by (auto split: if_splits)
    with r show ?thesis by blast
  qed
qed

section \<open>Claims about the normalizer\<close>

lemma sent_single [simp]:
  "status (singleResponse b xs) = 200"
  "options_sent (body (singleResponse b xs)) = [xs]"
  by (simp_all add: singleResponse_def)

lemma sent_multi [simp]:
  "status (multiResponse b legs) = 200"
  "options_sent (body (multiResponse b legs)) = map leg_options legs"
  by (simp_all add: multiResponse_def)

lemma leg_options_mkLeg [simp]: "leg_options (mkLeg n seg xs) = xs"
  by (simp add: mkLeg_def)

text \<open>An option whose price is \<open>NaN\<close> is written with the price \<^verbatim>\<open>null\<close>.\<close>

lemma prices_sent_NaN:
  assumes "opt \<in> set (concat (options_sent bd))" and "opt_price opt = NaN"
  shows "None \<in> set (concat (prices_sent bd))"
proof -
  from assms(1) obtain xs where xs: "xs \<in> set (options_sent bd)" "opt \<in> set xs" by auto
  have "jsonNumber (opt_price opt) \<in> set (map (\<lambda>opt. jsonNumber (opt_price opt)) xs)"
    using xs(2) by (simp add: image_iff) blast
  then have "None \<in> set (map (\<lambda>opt. jsonNumber (opt_price opt)) xs)"
    using assms(2) by simp
  moreover have "map (\<lambda>opt. jsonNumber (opt_price opt)) xs \<in> set (prices_sent bd)"
    using xs(1) by (simp add: prices_sent_def)
  ultimately show ?thesis unfolding set_concat by blast
qed

text \<open>
  Claim C3, as the code has it. An offer whose total price string does not parse as a
  number, and which has a first itinerary with a first segment, is normalized without any
  failure, to an option whose price is \<open>NaN\<close>, which the serializer writes as \<^verbatim>\<open>null\<close>,
  and does not make the request fail: when
  the token call and the search succeed and every offer of the response normalizes, the
  response has status 200, for a single-leg search and for a multi-city search with valid
  legs. With a truthy ceiling the budget filter leaves the option out of the response (no
  comparison with \<open>NaN\<close> holds). Otherwise the option is sent, and the JSON text of the
  body has \<^verbatim>\<open>null\<close> for its price.
\<close>

theorem C3_non_numeric_price:
  assumes "parseFloat (pr_total (o_price offer)) = NaN"
    and "o_itineraries offer = it # its" and "it_segments it = s # ss"
  shows "\<exists>opt. mapOfferToOption offer = Inr opt \<and> opt_price opt = NaN \<and>
           jsonNumber (opt_price opt) = None \<and>
           (\<forall>e req tok offers opts.
              offer \<in> set offers \<and> single_ok (destructure req) \<and> getAccessToken e = Inr tok \<and>
              axios_get e 0 tok (singleParams (destructure req)) = Inr (Some offers) \<and>
              mapOffers offers = Inr opts \<longrightarrow>
              status (snd (search_flights e req)) = 200 \<and>
              (truthy (r_maxPrice req) \<longrightarrow>
                 opt \<notin> set (concat (options_sent (body (snd (search_flights e req)))))) \<and>
              (\<not> truthy (r_maxPrice req) \<longrightarrow>
                 opt \<in> set (concat (options_sent (body (snd (search_flights e req))))) \<and>
                 None \<in> set (concat (prices_sent (body (snd (search_flights e req))))))) \<and>
           (\<forall>e req tok segs ds os k.
              r_tripType req = Str ''multi'' \<and> r_segments req = Some (map Some segs) \<and>
              getAccessToken e = Inr tok \<and>
              (\<forall>i<length segs. leg_ok (segs ! i) \<and>
                 axios_get e i tok (legParams (destructure req) (segs ! i)) = Inr (ds i) \<and>
                 mapOffers (dataOrEmpty (ds i)) = Inr (os i)) \<and>
              k < length segs \<and> offer \<in> set (dataOrEmpty (ds k)) \<longrightarrow>
              status (snd (search_flights e req)) = 200 \<and>
              (truthy (r_maxPrice req) \<longrightarrow>
                 opt \<notin> set (concat (options_sent (body (snd (search_flights e req)))))) \<and>
              (\<not> truthy (r_maxPrice req) \<longrightarrow>
                 opt \<in> set (concat (options_sent (body (snd (search_flights e req))))) \<and>
                 None \<in> set (concat (prices_sent (body (snd (search_flights e req)))))))"
proof -
  from mapOfferToOption_ok [OF assms(2,3)] assms(1) obtain opt where
    opt: "mapOfferToOption offer = Inr opt" and nan: "opt_price opt = NaN"
    by simp
  have single: "status (snd (search_flights e req)) = 200 \<and>
      (truthy (r_maxPrice req) \<longrightarrow>
         opt \<notin> set (concat (options_sent (body (snd (search_flights e req)))))) \<and>
      (\<not> truthy (r_maxPrice req) \<longrightarrow>
         opt \<in> set (concat (options_sent (body (snd (search_flights e req))))) \<and>
         None \<in> set (concat (prices_sent (body (snd (search_flights e req))))))"
    if "offer \<in> set offers" "single_ok (destructure req)" "getAccessToken e = Inr tok"
      "axios_get e 0 tok (singleParams (destructure req)) = Inr (Some offers)"
      "mapOffers offers = Inr opts" for e req tok offers opts
  proof -
    have m: "mapOffers (dataOrEmpty (Some offers)) = Inr opts"
      using that(5) by (simp add: dataOrEmpty_def)
    have res: "snd (search_flights e req) =
        singleResponse (destructure req) (budgetFilter (r_maxPrice req) opts)"
      using search_flights_single [OF that(2,3)] legOptions_ok [OF that(4) m, of "r_maxPrice req"]
      by simp
    have mem: "opt \<in> set opts" by (rule mapOffers_mem [OF that(1,5) opt])
    have st: "status (snd (search_flights e req)) = 200" by (simp add: res)
    have out: "opt \<notin> set (concat (options_sent (body (snd (search_flights e req)))))"
      if "truthy (r_maxPrice req)"
      using budgetFilter_NaN [OF nan that, of opts] by (simp add: res)
    have kept: "opt \<in> set (concat (options_sent (body (snd (search_flights e req)))))"
      if "\<not> truthy (r_maxPrice req)"
      using mem that by (simp add: res budgetFilter_falsy)
    from st out kept prices_sent_NaN [OF _ nan] show ?thesis by blast
  qed
  have multi: "status (snd (search_flights e req)) = 200 \<and>
      (truthy (r_maxPrice req) \<longrightarrow>
         opt \<notin> set (concat (options_sent (body (snd (search_flights e req)))))) \<and>
      (\<not> truthy (r_maxPrice req) \<longrightarrow>
         opt \<in> set (concat (options_sent (body (snd (search_flights e req))))) \<and>
         None \<in> set (concat (prices_sent (body (snd (search_flights e req))))))"
    if "r_tripType req = Str ''multi''" "r_segments req = Some (map Some segs)"
      "getAccessToken e = Inr tok"
      "\<forall>i<length segs. leg_ok (segs ! i) \<and>
         axios_get e i tok (legParams (destructure req) (segs ! i)) = Inr (ds i) \<and>
         mapOffers (dataOrEmpty (ds i)) = Inr (os i)"
      "k < length segs" "offer \<in> set (dataOrEmpty (ds k))" for e req tok segs ds os k
  proof -
    have ne: "segs \<noteq> []" using that(5) by auto
    have res: "snd (search_flights e req) =
        multiResponse (destructure req)
          (map (\<lambda>i. mkLeg (i + 1) (segs ! i) (budgetFilter (r_maxPrice req) (os i)))
             [0..<length segs])"
      using search_flights_multi_ok [OF that(1,2) ne that(3,4)] by simp
    have sent: "options_sent (body (snd (search_flights e req))) =
        map (\<lambda>i. budgetFilter (r_maxPrice req) (os i)) [0..<length segs]"
      by (simp add: res comp_def)
    have "mapOffers (dataOrEmpty (ds k)) = Inr (os k)" using that(4,5) by simp
    from mapOffers_mem [OF that(6) this opt] have mem: "opt \<in> set (os k)" .
    have st: "status (snd (search_flights e req)) = 200" by (simp add: res)
    have out: "opt \<notin> set (concat (options_sent (body (snd (search_flights e req)))))"
      if "truthy (r_maxPrice req)"
      using budgetFilter_NaN [OF nan that] by (simp add: sent)
    have kept: "opt \<in> set (concat (options_sent (body (snd (search_flights e req)))))"
      if "\<not> truthy (r_maxPrice req)"
      using mem that \<open>k < length segs\<close> by (auto simp: sent budgetFilter_falsy)
    from st out kept prices_sent_NaN [OF _ nan] show ?thesis by blast
  qed
  have js: "jsonNumber (opt_price opt) = None" using nan by simp
  from opt nan js single multi show ?thesis by blast
qed

text \<open>
  The theorem on the offer whose price string is \<^verbatim>\<open>"N/A"\<close>, as the answer to the one-way
  search without ceiling.
\<close>

theorem C3_non_numeric_price_witness:
  "parseFloat (pr_total (o_price (offer_priced ''N/A''))) = NaN \<and>
   status (snd (search_flights (env_answering [offer_priced ''N/A'']) oneway_request)) = 200 \<and>
   None \<in> set (concat (prices_sent (body (snd (search_flights
     (env_answering [offer_priced ''N/A'']) oneway_request)))))"
proof -
  let ?e = "env_answering [offer_priced ''N/A'']"
  have h1: "parseFloat (pr_total (o_price (offer_priced ''N/A''))) = NaN"
    by (simp add: offer_priced_def ex_offer_def price_not_a_number)
  have h2: "o_itineraries (offer_priced ''N/A'') =
      \<lparr> it_duration = ''PT2H45M'', it_segments = [ex_segment ''1'' ''KWI'' ''DXB''] \<rparr> # []"
    by (simp add: offer_priced_def ex_offer_def)
  have h3: "it_segments \<lparr> it_duration = ''PT2H45M'', it_segments = [ex_segment ''1'' ''KWI'' ''DXB''] \<rparr>
      = ex_segment ''1'' ''KWI'' ''DXB'' # []"
    by simp
  have a: "offer_priced ''N/A'' \<in> set [offer_priced ''N/A'']" by simp
  have b: "single_ok (destructure oneway_request)"
    by (simp add: single_ok_def destructure_def dflt_def oneway_request_def empty_request_def)
  have c: "getAccessToken ?e = Inr ''tok''" by (simp add: env_answering_def)
  have d: "axios_get ?e 0 ''tok'' (singleParams (destructure oneway_request)) =
      Inr (Some [offer_priced ''N/A''])"
    by (simp add: env_answering_def)
  have f: "mapOffers [offer_priced ''N/A''] = Inr [option_priced ''N/A'']"
    by (simp add: mapOfferToOption_priced)
  have g: "\<not> truthy (r_maxPrice oneway_request)"
    by (simp add: oneway_request_def empty_request_def)
  from C3_non_numeric_price [OF h1 h2 h3] obtain opt where
    "\<forall>e req tok offers opts.
       offer_priced ''N/A'' \<in> set offers \<and> single_ok (destructure req) \<and>
       getAccessToken e = Inr tok \<and>
       axios_get e 0 tok (singleParams (destructure req)) = Inr (Some offers) \<and>
       mapOffers offers = Inr opts \<longrightarrow>
       status (snd (search_flights e req)) = 200 \<and>
       (truthy (r_maxPrice req) \<longrightarrow>
          opt \<notin> set (concat (options_sent (body (snd (search_flights e req)))))) \<and>
       (\<not> truthy (r_maxPrice req) \<longrightarrow>
          opt \<in> set (concat (options_sent (body (snd (search_flights e req))))) \<and>
          None \<in> set (concat (prices_sent (body (snd (search_flights e req))))))"
    by blast
  from this [rule_format, of "[offer_priced ''N/A'']" oneway_request ?e "''tok''"
      "[option_priced ''N/A'']"] a b c d f g h1
  show ?thesis by blast
qed

text \<open>
  Claim C3 as the specification words it fails on a one-way search answered with the
  offer priced \<^verbatim>\<open>"N/A"\<close>: the response has status 200, not 500, and the price of its one
  option is written \<^verbatim>\<open>null\<close>, a value put in the place of the one that did not parse. With
  a ceiling of 300 the status is again 200 and the option is silently left out.
\<close>

theorem C3_counterexample:
  "pr_total (o_price (offer_priced ''N/A'')) = ''N/A'' \<and>
   parseFloat ''N/A'' = NaN \<and>
   status (snd (search_flights (env_answering [offer_priced ''N/A'']) oneway_request)) = 200 \<and>
   prices_sent (body (snd (search_flights (env_answering [offer_priced ''N/A''])
     oneway_request))) = [[None]] \<and>
   status (snd (search_flights (env_answering [offer_priced ''N/A''])
     (capped_request oneway_request (Number (Fin 300))))) = 200 \<and>
   options_sent (body (snd (search_flights (env_answering [offer_priced ''N/A''])
     (capped_request oneway_request (Number (Fin 300)))))) = [[]]"
proof -
  let ?e = "env_answering [offer_priced ''N/A'']"
  have p: "opt_price (option_priced ''N/A'') = NaN"
    by (simp add: option_priced_def price_not_a_number)
  have t: "pr_total (o_price (offer_priced ''N/A'')) = ''N/A''"
    by (simp add: offer_priced_def ex_offer_def)
  have r1: "snd (search_flights ?e oneway_request) =
      singleResponse (destructure oneway_request) [option_priced ''N/A'']"
    by (simp add: search_flights_def singleSearch_def legOptions_def dataOrEmpty_def
        mapOfferToOption_priced budgetFilter_def destructure_def dflt_def oneway_request_def empty_request_def
        env_answering_def Let_def)
  have r2: "snd (search_flights ?e (capped_request oneway_request (Number (Fin 300)))) =
      singleResponse (destructure (capped_request oneway_request (Number (Fin 300)))) []"
    by (simp add: search_flights_def singleSearch_def legOptions_def dataOrEmpty_def
        mapOfferToOption_priced p budgetFilter_def destructure_def dflt_def capped_request_def oneway_request_def
        empty_request_def env_answering_def Let_def)
  show ?thesis
    by (simp add: r1 r2 t p prices_sent_def price_not_a_number)
qed

text \<open>
  Claim C6. An offer with no itinerary, or whose first itinerary has no segment, makes
  \<^verbatim>\<open>mapOfferToOption\<close> throw: no option is produced for it. The exception ends the map
  over the offers of the response it came in, and the request ends with the status 500
  failure, for a single-leg search as for a multi-city search whose leg \<open>k\<close> (all legs up
  to it being valid, whatever the leg specs after them) is answered with such an offer.
\<close>

theorem C6_malformed_offer_fails:
  assumes "o_itineraries offer = [] \<or>
           (\<exists>it its. o_itineraries offer = it # its \<and> it_segments it = [])"
  shows "(\<exists>err. mapOfferToOption offer = Inl err) \<and>
         (offer \<in> set offers \<longrightarrow> (\<exists>err. mapOffers offers = Inl err)) \<and>
         (offer \<in> set offers \<and> single_ok (destructure req) \<and> getAccessToken e = Inr tok \<and>
          axios_get e 0 tok (singleParams (destructure req)) = Inr (Some offers) \<longrightarrow>
            (\<exists>err. snd (search_flights e req) = failure err)) \<and>
         (offer \<in> set offers \<and> r_tripType req = Str ''multi'' \<and>
          r_segments req = Some (map Some segs @ later) \<and>
          k < length segs \<and> (\<forall>j\<le>k. leg_ok (segs ! j)) \<and> getAccessToken e = Inr tok \<and>
          axios_get e k tok (legParams (destructure req) (segs ! k)) = Inr (Some offers) \<longrightarrow>
            (\<exists>err. snd (search_flights e req) = failure err))"
proof -
  from mapOfferToOption_malformed [OF assms] obtain err0 where
    bad: "mapOfferToOption offer = Inl err0" by blast
  have single: "\<exists>err. snd (search_flights e req) = failure err"
    if "offer \<in> set offers" "single_ok (destructure req)" "getAccessToken e = Inr tok"
      "axios_get e 0 tok (singleParams (destructure req)) = Inr (Some offers)"
  proof -
    from legOptions_malformed [OF that(4) that(1) bad]
    obtain err where
      "legOptions e 0 tok (r_maxPrice req) (singleParams (destructure req)) = Inl err"
      by blast
    then show ?thesis
      using search_flights_single [OF that(2,3)] by auto
  qed
  have multi: "\<exists>err. snd (search_flights e req) = failure err"
    if "offer \<in> set offers" "r_tripType req = Str ''multi''"
      "r_segments req = Some (map Some segs @ later)"
      "k < length segs" "\<forall>j\<le>k. leg_ok (segs ! j)" "getAccessToken e = Inr tok"
      "axios_get e k tok (legParams (destructure req) (segs ! k)) = Inr (Some offers)"
  proof -
    from legOptions_malformed [OF that(7) that(1) bad]
    obtain err1 where
      "legOptions e (0 + k) tok (r_maxPrice (destructure req))
         (legParams (destructure req) (segs ! k)) = Inl err1"
      by auto
    from multiLoop_throws [OF that(4,5) this]
    obtain err where
      t: "snd (multiLoop e tok (destructure req) 0 (map Some segs @ later) []) = Inl (Threw err)"
      by blast
    have "map Some segs @ later \<noteq> []" using that(4) by auto
    from search_flights_multi [OF that(2,3) this that(6)] t
    show ?thesis by auto
  qed
  show ?thesis
    using bad mapOffers_fails [of offer offers] single multi by blast
qed

text \<open>
  The theorem on a one-way search answered with a well-formed offer followed by an offer
  without itineraries, and on an offer whose itinerary has no segment.
\<close>

theorem C6_malformed_offer_fails_witness:
  "o_itineraries offer_no_itinerary = [] \<and>
   (\<exists>err. mapOfferToOption offer_no_itinerary = Inl err) \<and>
   (\<exists>err. snd (search_flights (env_answering [offer_priced ''250'', offer_no_itinerary])
            oneway_request) = failure err) \<and>
   (\<exists>it its. o_itineraries offer_no_segment = it # its \<and> it_segments it = []) \<and>
   (\<exists>err. mapOfferToOption offer_no_segment = Inl err)"
proof -
  have g: "\<exists>it its. o_itineraries offer_no_segment = it # its \<and> it_segments it = []"
    by (simp add: offer_no_segment_def ex_offer_def)
  from C6_malformed_offer_fails [OF disjI2 [OF g]]
  have g': "\<exists>err. mapOfferToOption offer_no_segment = Inl err" by blast
  have h: "o_itineraries offer_no_itinerary = []"
    by (simp add: offer_no_itinerary_def)
  have a: "offer_no_itinerary \<in> set [offer_priced ''250'', offer_no_itinerary]" by simp
  have b: "single_ok (destructure oneway_request)"
    by (simp add: single_ok_def destructure_def dflt_def oneway_request_def empty_request_def)
  have c: "getAccessToken (env_answering [offer_priced ''250'', offer_no_itinerary]) = Inr ''tok''"
    by (simp add: env_answering_def)
  have d: "axios_get (env_answering [offer_priced ''250'', offer_no_itinerary]) 0 ''tok''
      (singleParams (destructure oneway_request)) =
      Inr (Some [offer_priced ''250'', offer_no_itinerary])"
    by (simp add: env_answering_def)
  from C6_malformed_offer_fails [OF disjI1 [OF h],
      of "[offer_priced ''250'', offer_no_itinerary]" oneway_request
         "env_answering [offer_priced ''250'', offer_no_itinerary]" "''tok''"]
    h a b c d g g'
  show ?thesis by blast
qed

text \<open>
  Claim C7, as the code has it. For an offer with no traveler-pricing record, or whose
  first record has no fare-detail entry, the fare map is empty. When the offer has a first
  itinerary with a first segment, the normalizer returns an option whose identifier,
  price, currency, duration and airline are read from the offer, whose offer-level cabin,
  brandedFare, fareBasis and checkedBags are null, and which has one output segment per
  input segment; cabin, class, brandedFare, fareBasis and checkedBags of an output segment
  are null when the identifier of the input segment is not the name of a property that
  every object inherits.
\<close>

theorem C7_no_fare_data:
  assumes "o_travelerPricings offer = None \<or> o_travelerPricings offer = Some [] \<or>
           (\<exists>tp tps. o_travelerPricings offer = Some (tp # tps) \<and>
              (tp_fareDetailsBySegment tp = None \<or> tp_fareDetailsBySegment tp = Some []))"
    and "o_itineraries offer = it # its" and "it_segments it = s # ss"
  shows "segmentFareMap offer = Map.empty \<and>
         (\<exists>opt. mapOfferToOption offer = Inr opt \<and>
            opt_id opt = o_id offer \<and>
            opt_price opt = parseFloat (pr_total (o_price offer)) \<and>
            opt_currency opt = pr_currency (o_price offer) \<and>
            opt_duration opt = it_duration it \<and>
            opt_airline opt = s_carrierCode s \<and>
            opt_cabin opt = None \<and> opt_brandedFare opt = None \<and>
            opt_fareBasis opt = None \<and> opt_checkedBags opt = None \<and>
            length (opt_segments opt) = length (s # ss) \<and>
            (\<forall>i<length (s # ss).
               s_id ((s # ss) ! i) \<notin> set object_prototype_names \<longrightarrow>
               so_cabin (opt_segments opt ! i) = IsNull \<and>
               so_class (opt_segments opt ! i) = IsNull \<and>
               so_brandedFare (opt_segments opt ! i) = IsNull \<and>
               so_fareBasis (opt_segments opt ! i) = IsNull \<and>
               so_checkedBags (opt_segments opt ! i) = IsNull))"
proof -
  have fds: "fareDetails offer = []"
    using assms(1) by (auto simp: fareDetails_def)
  then have m: "segmentFareMap offer = Map.empty"
    by (simp add: segmentFareMap_def fillFareMap_def)
  have top: "offerMember sel (fareLookup Map.empty k) = None" for sel :: "fare_info \<Rightarrow> 'b option" and k
    by (simp add: fareLookup_empty)
  have seg: "so_cabin (mapSegment Map.empty x) = IsNull \<and>
      so_class (mapSegment Map.empty x) = IsNull \<and>
      so_brandedFare (mapSegment Map.empty x) = IsNull \<and>
      so_fareBasis (mapSegment Map.empty x) = IsNull \<and>
      so_checkedBags (mapSegment Map.empty x) = IsNull"
    if "s_id x \<notin> set object_prototype_names" for x
    using that by (simp add: mapSegment_def fareLookup_empty fallbackFare_def)
  have segs: "\<forall>i<length (s # ss).
      s_id ((s # ss) ! i) \<notin> set object_prototype_names \<longrightarrow>
      so_cabin (map (mapSegment Map.empty) (s # ss) ! i) = IsNull \<and>
      so_class (map (mapSegment Map.empty) (s # ss) ! i) = IsNull \<and>
      so_brandedFare (map (mapSegment Map.empty) (s # ss) ! i) = IsNull \<and>
      so_fareBasis (map (mapSegment Map.empty) (s # ss) ! i) = IsNull \<and>
      so_checkedBags (map (mapSegment Map.empty) (s # ss) ! i) = IsNull"
    using seg by (simp del: nth_Cons_Suc nth_Cons_0 list.map add: nth_map)
  show ?thesis
    using m segs by (simp add: mapOfferToOption_ok [OF assms(2,3)] top del: list.map)
qed

text \<open>The theorem on the offer priced \<^verbatim>\<open>"250"\<close>, which has no traveler pricing.\<close>

theorem C7_no_fare_data_witness:
  "o_travelerPricings (offer_priced ''250'') = None \<and>
   segmentFareMap (offer_priced ''250'') = Map.empty \<and>
   (\<exists>opt. mapOfferToOption (offer_priced ''250'') = Inr opt \<and> opt_cabin opt = None \<and>
      opt_price opt = Fin 250 \<and> so_cabin (opt_segments opt ! 0) = IsNull)"
proof -
  have h1: "o_travelerPricings (offer_priced ''250'') = None"
    by (simp add: offer_priced_def ex_offer_def)
  have h2: "o_itineraries (offer_priced ''250'') =
      \<lparr> it_duration = ''PT2H45M'', it_segments = [ex_segment ''1'' ''KWI'' ''DXB''] \<rparr> # []"
    by (simp add: offer_priced_def ex_offer_def)
  have h3: "it_segments \<lparr> it_duration = ''PT2H45M'', it_segments = [ex_segment ''1'' ''KWI'' ''DXB''] \<rparr>
      = ex_segment ''1'' ''KWI'' ''DXB'' # []"
    by simp
  have p: "parseFloat (pr_total (o_price (offer_priced ''250''))) = Fin 250"
    by (simp add: offer_priced_def ex_offer_def price_250)
  have n: "s_id ([ex_segment ''1'' ''KWI'' ''DXB''] ! 0) \<notin> set object_prototype_names"
    by (simp add: ex_segment_def object_prototype_names_def)
  from C7_no_fare_data [OF disjI1 [OF h1] h2 h3] obtain opt where
    o: "mapOfferToOption (offer_priced ''250'') = Inr opt" "opt_cabin opt = None"
      "opt_price opt = parseFloat (pr_total (o_price (offer_priced ''250'')))"
      "\<forall>i<length [ex_segment ''1'' ''KWI'' ''DXB''].
         s_id ([ex_segment ''1'' ''KWI'' ''DXB''] ! i) \<notin> set object_prototype_names \<longrightarrow>
         so_cabin (opt_segments opt ! i) = IsNull"
    and m: "segmentFareMap (offer_priced ''250'') = Map.empty"
    by auto
  from o(4) n have "so_cabin (opt_segments opt ! 0) = IsNull" by simp
  with h1 m o p show ?thesis by auto
qed

text \<open>
  Claim C7 as the specification words it fails on two offers without traveler pricing.
  The one without itinerary gets no option at all: the normalizer throws. The one whose
  segment has the identifier \<^verbatim>\<open>constructor\<close> gets an option whose segment has the five
  fare members \<^verbatim>\<open>undefined\<close>, not null: \<^verbatim>\<open>segmentFareMap["constructor"]\<close> is the inherited
  function, which is truthy, so the fallback is not taken.
\<close>

theorem C7_counterexample:
  "o_travelerPricings offer_no_itinerary = None \<and>
   mapOfferToOption offer_no_itinerary = Inl (TypeError ''segments'') \<and>
   o_travelerPricings offer_inherited_id = None \<and>
   mapOfferToOption offer_inherited_id = Inr option_inherited_id \<and>
   map so_cabin (opt_segments option_inherited_id) = [Undef] \<and>
   map so_class (opt_segments option_inherited_id) = [Undef] \<and>
   map so_brandedFare (opt_segments option_inherited_id) = [Undef] \<and>
   map so_fareBasis (opt_segments option_inherited_id) = [Undef] \<and>
   map so_checkedBags (opt_segments option_inherited_id) = [Undef]"
  by (simp add: mapOfferToOption_def segmentFareMap_def fillFareMap_def fareDetails_def
      mapSegment_def fareLookup_def object_prototype_names_def option_inherited_id_def ex_defs)

section \<open>Claims about the handler\<close>

text \<open>The token request is the first upstream call of every run, whatever the request.\<close>

lemma token_call_first: "\<exists>calls. fst (search_flights e req) = TokenCall # calls"
  by (cases "getAccessToken e") (auto simp: search_flights_def Let_def case_prod_beta)

text \<open>
  Claim C4 fails on the code. The handler awaits \<^verbatim>\<open>getAccessToken()\<close> before it looks at
  any request field, so a one-way request without destination has already caused the token
  call when the status 400 response is sent; and when the token call fails, the same
  request is answered with the status 500 failure and not with the validation error. The
  earlier version of the handler in \<^verbatim>\<open>src/app.js\<close> checks the request first and asks for
  the token afterwards.
\<close>

theorem C4_token_before_validation:
  "search_flights (env_answering []) no_destination_request =
     ([TokenCall], bad_request ''origin, destination, and departureDate are required'') \<and>
   search_flights env_no_token no_destination_request =
     ([TokenCall], failure (AxiosError None ''Request failed with status code 401'')) \<and>
   status (failure (AxiosError None ''Request failed with status code 401'')) = 500"
  by (simp add: search_flights_def singleSearch_def destructure_def dflt_def failure_def
      ex_defs)






text \<open>
  Claim C8. For a multi-city request whose leg specs are all valid, a successful response
  (status 200) is a multi-city body with as many legs as leg specs, the leg at position
  \<open>i\<close> (from 0) carrying \<^verbatim>\<open>legIndex\<close> \<open>i + 1\<close> and the origin, destination and date of
  the leg spec at that position. The response is successful, with these legs and the
  filtered options of each search, when there is at least one leg, the token call succeeds
  and every leg's search succeeds with offers that normalize.
\<close>

theorem C8_multi_city_legs:
  assumes "r_tripType req = Str ''multi''" and "r_segments req = Some (map Some segs)"
    and "\<forall>seg\<in>set segs. leg_ok seg"
  shows "(status (snd (search_flights e req)) = 200 \<longrightarrow>
           (\<exists>mb. body (snd (search_flights e req)) = MultiBody mb \<and>
              length (mb_legs mb) = length segs \<and>
              (\<forall>i<length segs.
                 leg_legIndex (mb_legs mb ! i) = i + 1 \<and>
                 leg_origin (mb_legs mb ! i) = ls_origin (segs ! i) \<and>
                 leg_destination (mb_legs mb ! i) = ls_destination (segs ! i) \<and>
                 leg_date (mb_legs mb ! i) = ls_date (segs ! i)))) \<and>
         (segs \<noteq> [] \<and> getAccessToken e = Inr tok \<and>
          (\<forall>i<length segs.
             axios_get e i tok (legParams (destructure req) (segs ! i)) = Inr (ds i) \<and>
             mapOffers (dataOrEmpty (ds i)) = Inr (os i)) \<longrightarrow>
          snd (search_flights e req) =
            multiResponse (destructure req)
              (map (\<lambda>i. mkLeg (i + 1) (segs ! i) (budgetFilter (r_maxPrice req) (os i)))
                 [0..<length segs]))"
proof -
  let ?b = "destructure req"
  let ?res = "snd (search_flights e req)"
  have shape: "\<exists>mb. body ?res = MultiBody mb \<and> length (mb_legs mb) = length segs \<and>
      (\<forall>i<length segs.
         leg_legIndex (mb_legs mb ! i) = i + 1 \<and>
         leg_origin (mb_legs mb ! i) = ls_origin (segs ! i) \<and>
         leg_destination (mb_legs mb ! i) = ls_destination (segs ! i) \<and>
         leg_date (mb_legs mb ! i) = ls_date (segs ! i))"
    if st: "status ?res = 200"
  proof (cases "getAccessToken e")
    case (Inl err)
    with st show ?thesis by (simp add: search_flights_no_token failure_def)
  next
    case (Inr t)
    show ?thesis
    proof (cases "segs = []")
      case True
      with st assms(1,2) Inr show ?thesis
        by (simp add: search_flights_multi_empty bad_request_def)
    next
      case False
      then have ne: "map Some segs \<noteq> []" by simp
      note run = search_flights_multi [OF assms(1,2) ne Inr]
      show ?thesis
      proof (cases "snd (multiLoop e t ?b 0 (map Some segs) [])")
        case (Inl out)
        show ?thesis
        proof (cases out)
          case (Threw err)
          with Inl run st show ?thesis by (simp add: failure_def)
        next
          case (Sent r)
          with Inl have "r = bad_request each_segment_msg"
            using multiLoop_Sent by blast
          with Inl Sent run st show ?thesis by (simp add: bad_request_def)
        qed
      next
        case (Inr legs)
        from multiLoop_Inr [OF this] obtain opts where
          legs: "legs = map (\<lambda>j. mkLeg (0 + j + 1) (segs ! j) (opts j)) [0..<length segs]"
          by auto
        have "?res = multiResponse ?b legs" using run Inr by simp
        then show ?thesis
          using legs by (simp add: multiResponse_def mkLeg_def)
      qed
    qed
  qed
  have good: "?res = multiResponse ?b
      (map (\<lambda>i. mkLeg (i + 1) (segs ! i) (budgetFilter (r_maxPrice req) (os i))) [0..<length segs])"
    if ne: "segs \<noteq> []" and tok: "getAccessToken e = Inr tok"
      and ok: "\<forall>i<length segs. axios_get e i tok (legParams ?b (segs ! i)) = Inr (ds i) \<and>
                 mapOffers (dataOrEmpty (ds i)) = Inr (os i)"
  proof -
    have "\<forall>i<length segs. leg_ok (segs ! i) \<and>
        axios_get e i tok (legParams ?b (segs ! i)) = Inr (ds i) \<and>
        mapOffers (dataOrEmpty (ds i)) = Inr (os i)"
      using assms(3) ok by simp
    from search_flights_multi_ok [OF assms(1,2) ne tok this] show ?thesis by simp
  qed
  from shape good show ?thesis by blast
qed

text \<open>
  The theorem on a two-leg request, each search answered with the offer priced
  \<^verbatim>\<open>"250"\<close>: status 200, two legs, indexed 1 and 2.
\<close>

theorem C8_multi_city_legs_witness:
  "status (snd (search_flights (env_answering [offer_priced ''250'']) (multi_request two_legs))) = 200 \<and>
   (\<exists>mb. body (snd (search_flights (env_answering [offer_priced ''250''])
             (multi_request two_legs))) = MultiBody mb \<and>
      length (mb_legs mb) = 2 \<and>
      leg_legIndex (mb_legs mb ! 0) = 1 \<and> leg_legIndex (mb_legs mb ! 1) = 2 \<and>
      leg_origin (mb_legs mb ! 1) = Str ''DXB'')"
proof -
  let ?e = "env_answering [offer_priced ''250'']"
  let ?req = "multi_request two_legs"
  have h1: "r_tripType ?req = Str ''multi''" by (simp add: multi_request_def)
  have h2: "r_segments ?req = Some (map Some two_legs)" by (simp add: multi_request_def)
  have h3: "\<forall>seg\<in>set two_legs. leg_ok seg" by (simp add: two_legs_def leg_ok_def ex_leg_def)
  have ne: "two_legs \<noteq> []" by (simp add: two_legs_def)
  have tok: "getAccessToken ?e = Inr ''tok''" by (simp add: env_answering_def)
  have ok: "\<forall>i<length two_legs.
      axios_get ?e i ''tok'' (legParams (destructure ?req) (two_legs ! i)) =
        Inr (Some [offer_priced ''250'']) \<and>
      mapOffers (dataOrEmpty (Some [offer_priced ''250''])) = Inr [option_priced ''250'']"
    by (simp add: env_answering_def dataOrEmpty_def mapOfferToOption_priced)
  note c8 = C8_multi_city_legs [OF h1 h2 h3, of ?e "''tok''"
      "\<lambda>i. Some [offer_priced ''250'']" "\<lambda>i. [option_priced ''250'']"]
  from c8 ne tok ok have st: "status (snd (search_flights ?e ?req)) = 200"
    by (simp add: multiResponse_def)
  with c8 obtain mb where mb: "body (snd (search_flights ?e ?req)) = MultiBody mb"
      "length (mb_legs mb) = length two_legs"
      "\<forall>i<length two_legs. leg_legIndex (mb_legs mb ! i) = i + 1 \<and>
         leg_origin (mb_legs mb ! i) = ls_origin (two_legs ! i)"
    by blast
  have len: "length two_legs = 2" by (simp add: two_legs_def)
  from mb(3) len have "leg_legIndex (mb_legs mb ! 0) = 1" "leg_legIndex (mb_legs mb ! 1) = 2"
    "leg_origin (mb_legs mb ! 1) = Str ''DXB''"
    by (simp_all add: two_legs_def ex_leg_def)
  with st mb(1,2) len show ?thesis by auto
qed

text \<open>
  Claim C9. Every flight-offer search the handler issues carries \<^verbatim>\<open>maxPrice\<close> exactly
  when the request's \<^verbatim>\<open>maxPrice\<close> is truthy, and then with that value, and likewise
  \<^verbatim>\<open>travelClass\<close>; neither key is ever sent as \<^verbatim>\<open>undefined\<close>, \<^verbatim>\<open>null\<close> or the empty
  string. \<^verbatim>\<open>returnDate\<close> is in the parameters exactly for a round trip. A round-trip
  request issues at most one search, and exactly one, after the token call, when it passes
  validation and the token call succeeds.
\<close>

theorem C9_query_parameters:
  "(\<forall>tok ps. OffersCall tok ps \<in> set (fst (search_flights e req)) \<longrightarrow>
      p_maxPrice ps = (if truthy (r_maxPrice req) then Some (r_maxPrice req) else None) \<and>
      p_travelClass ps = (if truthy (r_travelClass req) then Some (r_travelClass req) else None) \<and>
      p_maxPrice ps \<noteq> Some Undefined \<and> p_maxPrice ps \<noteq> Some Null \<and>
      p_maxPrice ps \<noteq> Some (Str []) \<and>
      p_travelClass ps \<noteq> Some Undefined \<and> p_travelClass ps \<noteq> Some Null \<and>
      p_travelClass ps \<noteq> Some (Str []) \<and>
      p_returnDate ps =
        (if r_tripType req = Str ''roundtrip'' then Some (r_returnDate req) else None)) \<and>
   (r_tripType req = Str ''roundtrip'' \<longrightarrow>
      (fst (search_flights e req) = [TokenCall] \<or>
       (\<exists>tok. fst (search_flights e req) =
          [TokenCall, OffersCall tok (singleParams (destructure req))])) \<and>
      (\<forall>tok. single_ok (destructure req) \<and> getAccessToken e = Inr tok \<longrightarrow>
         fst (search_flights e req) =
           [TokenCall, OffersCall tok (singleParams (destructure req))]))"
proof -
  let ?b = "destructure req"
  have opt: "\<And>v. truthy v \<Longrightarrow> v \<noteq> Undefined \<and> v \<noteq> Null \<and> v \<noteq> Str []"
    by auto
  have trip: "r_tripType ?b = Str ''roundtrip'' \<longleftrightarrow> r_tripType req = Str ''roundtrip''"
    by (simp add: destructure_tripType)
  have multi: "r_tripType ?b = Str ''multi'' \<Longrightarrow> r_tripType req \<noteq> Str ''roundtrip''"
    by (auto simp: destructure_tripType split: if_splits)
  have part1: "p_maxPrice ps = (if truthy (r_maxPrice req) then Some (r_maxPrice req) else None) \<and>
      p_travelClass ps = (if truthy (r_travelClass req) then Some (r_travelClass req) else None) \<and>
      p_maxPrice ps \<noteq> Some Undefined \<and> p_maxPrice ps \<noteq> Some Null \<and>
      p_maxPrice ps \<noteq> Some (Str []) \<and>
      p_travelClass ps \<noteq> Some Undefined \<and> p_travelClass ps \<noteq> Some Null \<and>
      p_travelClass ps \<noteq> Some (Str []) \<and>
      p_returnDate ps =
        (if r_tripType req = Str ''roundtrip'' then Some (r_returnDate req) else None)"
    if "OffersCall tok ps \<in> set (fst (search_flights e req))" for tok ps
  proof -
    from offers_calls [OF that] consider
      (single) "ps = singleParams ?b"
      | (leg) seg where "r_tripType ?b = Str ''multi''" "ps = legParams ?b seg"
      by blast
    then show ?thesis
    proof cases
      case single
      show ?thesis
        unfolding single using opt [of "r_maxPrice req"] opt [of "r_travelClass req"] trip
        by simp
    next
      case leg
      show ?thesis
        unfolding leg(2)
        using opt [of "r_maxPrice req"] opt [of "r_travelClass req"] multi [OF leg(1)]
        by simp
    qed
  qed
  have part2: "(fst (search_flights e req) = [TokenCall] \<or>
       (\<exists>tok. fst (search_flights e req) = [TokenCall, OffersCall tok (singleParams ?b)])) \<and>
      (\<forall>tok. single_ok ?b \<and> getAccessToken e = Inr tok \<longrightarrow>
         fst (search_flights e req) = [TokenCall, OffersCall tok (singleParams ?b)])"
    if rt: "r_tripType req = Str ''roundtrip''"
  proof (cases "getAccessToken e")
    case (Inl err)
    then show ?thesis by (simp add: search_flights_no_token)
  next
    case (Inr t)
    have "r_tripType ?b = Str ''roundtrip''" using rt by simp
    then have "fst (search_flights e req) = TokenCall # fst (singleSearch e t ?b)"
      using Inr by (simp add: search_flights_def Let_def case_prod_beta)
    then show ?thesis
      using Inr by (auto simp: singleSearch_calls single_ok_def)
  qed
  from part1 part2 show ?thesis by blast
qed

text \<open>
  The theorem on the round-trip request from Kuwait to London: one token call, then one
  search, whose parameters hold the return date and neither optional key.
\<close>

theorem C9_query_parameters_witness:
  "r_tripType roundtrip_request = Str ''roundtrip'' \<and>
   fst (search_flights (env_answering []) roundtrip_request) =
     [TokenCall,
      OffersCall ''tok''
        \<lparr> p_originLocationCode = Str ''KWI'', p_destinationLocationCode = Str ''LHR'',
          p_departureDate = Str ''2025-07-01'', p_adults = Number (Fin 1),
          p_currencyCode = Str ''KWD'', p_max = Number (Fin 5),
          p_returnDate = Some (Str ''2025-07-15''), p_maxPrice = None,
          p_travelClass = None \<rparr>]"
proof -
  let ?e = "env_answering []"
  have h1: "r_tripType roundtrip_request = Str ''roundtrip''"
    by (simp add: roundtrip_request_def)
  have h2: "single_ok (destructure roundtrip_request)"
    by (simp add: single_ok_def destructure_def dflt_def roundtrip_request_def empty_request_def)
  have h3: "getAccessToken ?e = Inr ''tok''" by (simp add: env_answering_def)
  from C9_query_parameters [of ?e roundtrip_request] h1 h2 h3
  have "fst (search_flights ?e roundtrip_request) =
      [TokenCall, OffersCall ''tok'' (singleParams (destructure roundtrip_request))]"
    by blast
  then show ?thesis
    using h1
    by (simp add: singleParams_def baseParams_def withOptional_def destructure_def dflt_def
        roundtrip_request_def empty_request_def Let_def)
qed

text \<open>
  Claim C10. When the request's \<^verbatim>\<open>maxPrice\<close> is falsy (\<^verbatim>\<open>0\<close>, \<^verbatim>\<open>null\<close>, \<^verbatim>\<open>false\<close>, the
  empty string, \<open>NaN\<close>), the handler issues the same calls and sends the same response as
  for the request with \<^verbatim>\<open>maxPrice\<close> absent: no search carries \<^verbatim>\<open>maxPrice\<close>, the budget
  filter leaves every option list as it is, so that a single-leg response carries all the
  normalized options, and a multi-city body has no \<^verbatim>\<open>maxPrice\<close> member.
\<close>

theorem C10_falsy_max_price:
  assumes "\<not> truthy v"
  shows "search_flights e (req \<lparr> r_maxPrice := v \<rparr>) =
           search_flights e (req \<lparr> r_maxPrice := Undefined \<rparr>) \<and>
         (\<forall>tok ps. OffersCall tok ps \<in> set (fst (search_flights e (req \<lparr> r_maxPrice := v \<rparr>)))
            \<longrightarrow> p_maxPrice ps = None) \<and>
         budgetFilter v opts = opts \<and>
         (\<forall>tok d. single_ok (destructure req) \<and> getAccessToken e = Inr tok \<and>
            axios_get e 0 tok (singleParams (destructure (req \<lparr> r_maxPrice := v \<rparr>))) = Inr d \<and>
            mapOffers (dataOrEmpty d) = Inr opts \<longrightarrow>
            options_sent (body (snd (search_flights e (req \<lparr> r_maxPrice := v \<rparr>)))) = [opts]) \<and>
         (\<forall>mb. body (snd (search_flights e (req \<lparr> r_maxPrice := v \<rparr>))) = MultiBody mb
            \<longrightarrow> mb_maxPrice mb = Undefined)"
proof -
  let ?req = "req \<lparr> r_maxPrice := v \<rparr>"
  let ?b = "destructure ?req"
  have mp: "r_maxPrice ?req = v" by simp
  have calls: "p_maxPrice ps = None"
    if "OffersCall tok ps \<in> set (fst (search_flights e ?req))" for tok ps
    using offers_calls [OF that] assms by auto
  have filt: "budgetFilter v opts = opts"
    using assms by (simp add: budgetFilter_def)
  have sok: "single_ok ?b = single_ok (destructure req)"
    by (simp add: single_ok_def destructure_def)
  have single: "options_sent (body (snd (search_flights e ?req))) = [opts]"
    if "single_ok (destructure req)" "getAccessToken e = Inr tok"
      "axios_get e 0 tok (singleParams ?b) = Inr d" "mapOffers (dataOrEmpty d) = Inr opts"
    for tok d
  proof -
    have ok: "single_ok ?b" using that(1) sok by simp
    have "legOptions e 0 tok (r_maxPrice ?req) (singleParams ?b) = Inr (budgetFilter v opts)"
      using legOptions_ok [OF that(3,4)] by simp
    then show ?thesis
      using search_flights_single [OF ok that(2)] filt by (simp add: singleResponse_def)
  qed
  have echo: "mb_maxPrice mb = Undefined"
    if mb: "body (snd (search_flights e ?req)) = MultiBody mb" for mb
  proof -
    from search_flights_responses [of e ?req] mb
    obtain legs where "snd (search_flights e ?req) = multiResponse ?b legs"
      by (auto simp: failure_def bad_request_def singleResponse_def)
    with mb have "mb = \<lparr> mb_adults = r_adults ?b, mb_currency = r_currency ?b,
        mb_max = r_max ?b, mb_maxPrice = (if truthy (r_maxPrice ?b) then r_maxPrice ?b else Undefined),
        mb_legs = legs \<rparr>"
      by (simp add: multiResponse_def)
    then have "mb_maxPrice mb = (if truthy (r_maxPrice ?b) then r_maxPrice ?b else Undefined)"
      by simp
    with assms show ?thesis by simp
  qed
  from search_flights_falsy [OF assms] calls filt single echo show ?thesis by blast
qed

text \<open>The theorem on the one-way request with \<^verbatim>\<open>maxPrice: 0\<close>.\<close>

theorem C10_falsy_max_price_witness:
  "\<not> truthy (Number (Fin 0)) \<and>
   search_flights (env_answering [offer_priced ''250''])
     (oneway_request \<lparr> r_maxPrice := Number (Fin 0) \<rparr>) =
   search_flights (env_answering [offer_priced ''250''])
     (oneway_request \<lparr> r_maxPrice := Undefined \<rparr>) \<and>
   options_sent (body (snd (search_flights (env_answering [offer_priced ''250''])
     (oneway_request \<lparr> r_maxPrice := Number (Fin 0) \<rparr>)))) = [[option_priced ''250'']]"
proof -
  let ?e = "env_answering [offer_priced ''250'']"
  have h: "\<not> truthy (Number (Fin 0))" by simp
  have a: "single_ok (destructure oneway_request)"
    by (simp add: single_ok_def destructure_def dflt_def oneway_request_def empty_request_def)
  have b: "getAccessToken ?e = Inr ''tok''" by (simp add: env_answering_def)
  have c: "axios_get ?e 0 ''tok''
      (singleParams (destructure (oneway_request \<lparr> r_maxPrice := Number (Fin 0) \<rparr>))) =
      Inr (Some [offer_priced ''250''])"
    by (simp add: env_answering_def)
  have d: "mapOffers (dataOrEmpty (Some [offer_priced ''250''])) = Inr [option_priced ''250'']"
    by (simp add: dataOrEmpty_def mapOfferToOption_priced)
  from C10_falsy_max_price [OF h, of ?e oneway_request "[option_priced ''250'']"] a b c d h
  show ?thesis by blast
qed

text \<open>
  Claim C2, as the code has it. For a ceiling \<open>C\<close> that is a number other than \<open>0\<close> and
  \<open>NaN\<close>, the budget filter returns exactly the options whose price is at most \<open>C\<close>, in
  their original order, and the handler applies it to the normalized options of the leg
  before it assembles the response: in the single-leg response, and in every leg of the
  multi-city response.
\<close>

theorem C2_budget_filter:
  assumes "r_maxPrice req = Number C" and "C \<noteq> NaN" and "C \<noteq> Fin 0"
  shows "budgetFilter (r_maxPrice req) opts = filter (\<lambda>opt. js_le (opt_price opt) C) opts \<and>
         (\<forall>tok d. single_ok (destructure req) \<and> getAccessToken e = Inr tok \<and>
            axios_get e 0 tok (singleParams (destructure req)) = Inr d \<and>
            mapOffers (dataOrEmpty d) = Inr opts \<longrightarrow>
            snd (search_flights e req) =
              singleResponse (destructure req) (filter (\<lambda>opt. js_le (opt_price opt) C) opts)) \<and>
         (\<forall>tok segs ds os. r_tripType req = Str ''multi'' \<and>
            r_segments req = Some (map Some segs) \<and>
            segs \<noteq> [] \<and> getAccessToken e = Inr tok \<and>
            (\<forall>i<length segs. leg_ok (segs ! i) \<and>
               axios_get e i tok (legParams (destructure req) (segs ! i)) = Inr (ds i) \<and>
               mapOffers (dataOrEmpty (ds i)) = Inr (os i)) \<longrightarrow>
            snd (search_flights e req) =
              multiResponse (destructure req)
                (map (\<lambda>i. mkLeg (i + 1) (segs ! i)
                           (filter (\<lambda>opt. js_le (opt_price opt) C) (os i)))
                   [0..<length segs]))"
proof -
  have filt: "budgetFilter (r_maxPrice req) xs = filter (\<lambda>opt. js_le (opt_price opt) C) xs" for xs
    using assms by (simp add: budgetFilter_def)
  have single: "snd (search_flights e req) =
      singleResponse (destructure req) (filter (\<lambda>opt. js_le (opt_price opt) C) opts)"
    if "single_ok (destructure req)" "getAccessToken e = Inr tok"
      "axios_get e 0 tok (singleParams (destructure req)) = Inr d"
      "mapOffers (dataOrEmpty d) = Inr opts" for tok d
    using search_flights_single [OF that(1,2)] legOptions_ok [OF that(3,4), of "r_maxPrice req"]
    by (simp add: filt)
  have multi: "snd (search_flights e req) =
      multiResponse (destructure req)
        (map (\<lambda>i. mkLeg (i + 1) (segs ! i) (filter (\<lambda>opt. js_le (opt_price opt) C) (os i)))
           [0..<length segs])"
    if "r_tripType req = Str ''multi''" "r_segments req = Some (map Some segs)" "segs \<noteq> []"
      "getAccessToken e = Inr tok"
      "\<forall>i<length segs. leg_ok (segs ! i) \<and>
         axios_get e i tok (legParams (destructure req) (segs ! i)) = Inr (ds i) \<and>
         mapOffers (dataOrEmpty (ds i)) = Inr (os i)" for tok segs ds os
    using search_flights_multi_ok [OF that] by (simp add: filt)
  from filt [of opts] single multi show ?thesis by blast
qed

text \<open>
  The theorem on the multi-city request with one leg and a ceiling of 300, answered with
  offers priced 250 and 400: leg 1 has exactly the option priced 250.
\<close>

theorem C2_budget_filter_witness:
  "r_maxPrice scenario_d = Number (Fin 300) \<and>
   snd (search_flights (env_answering [offer_priced ''250'', offer_priced ''400'']) scenario_d) =
     multiResponse (destructure scenario_d)
       [mkLeg 1 (ex_leg ''KWI'' ''DXB'' ''2025-01-01'') [option_priced ''250'']] \<and>
   opt_price (option_priced ''250'') = Fin 250 \<and> opt_price (option_priced ''400'') = Fin 400"
proof -
  let ?e = "env_answering [offer_priced ''250'', offer_priced ''400'']"
  let ?segs = "[ex_leg ''KWI'' ''DXB'' ''2025-01-01'']"
  have h1: "r_maxPrice scenario_d = Number (Fin 300)"
    by (simp add: scenario_d_def capped_request_def)
  have h2: "Fin 300 \<noteq> NaN" by simp
  have h3: "Fin 300 \<noteq> Fin 0" by simp
  have a: "r_tripType scenario_d = Str ''multi''"
    by (simp add: scenario_d_def capped_request_def multi_request_def)
  have b: "r_segments scenario_d = Some (map Some ?segs)"
    by (simp add: scenario_d_def capped_request_def multi_request_def)
  have c: "?segs \<noteq> []" by simp
  have d: "getAccessToken ?e = Inr ''tok''" by (simp add: env_answering_def)
  have f: "\<forall>i<length ?segs. leg_ok (?segs ! i) \<and>
      axios_get ?e i ''tok'' (legParams (destructure scenario_d) (?segs ! i)) =
        Inr (Some [offer_priced ''250'', offer_priced ''400'']) \<and>
      mapOffers (dataOrEmpty (Some [offer_priced ''250'', offer_priced ''400''])) =
        Inr [option_priced ''250'', option_priced ''400'']"
    by (simp add: env_answering_def dataOrEmpty_def mapOfferToOption_priced leg_ok_def ex_leg_def)
  have p: "opt_price (option_priced ''250'') = Fin 250" "opt_price (option_priced ''400'') = Fin 400"
    by (simp_all add: option_priced_def price_250 price_400)
  from C2_budget_filter [OF h1 h2 h3, of "[]" ?e, THEN conjunct2, THEN conjunct2, rule_format,
      where tok = "''tok''" and segs = ?segs
        and ds = "\<lambda>i. Some [offer_priced ''250'', offer_priced ''400'']"
        and os = "\<lambda>i. [option_priced ''250'', option_priced ''400'']"] a b c d f
  have "snd (search_flights ?e scenario_d) =
      multiResponse (destructure scenario_d)
        (map (\<lambda>i. mkLeg (i + 1) (?segs ! i)
                   (filter (\<lambda>opt. js_le (opt_price opt) (Fin 300))
                      [option_priced ''250'', option_priced ''400'']))
           [0..<length ?segs])"
    by blast
  then show ?thesis using h1 p by simp
qed

text \<open>
  Claim C2 as the specification words it fails for the ceiling \<open>0\<close>: the request supplies
  it, the filter is not applied, and the response carries an option priced 250, which is
  not at most 0.
\<close>

theorem C2_counterexample:
  "r_maxPrice (capped_request oneway_request (Number (Fin 0))) = Number (Fin 0) \<and>
   options_sent (body (snd (search_flights (env_answering [offer_priced ''250''])
     (capped_request oneway_request (Number (Fin 0)))))) = [[option_priced ''250'']] \<and>
   opt_price (option_priced ''250'') = Fin 250 \<and>
   \<not> js_le (opt_price (option_priced ''250'')) (Fin 0)"
  by (simp add: search_flights_def singleSearch_def legOptions_def dataOrEmpty_def
      mapOfferToOption_priced budgetFilter_def singleResponse_def destructure_def dflt_def
      capped_request_def oneway_request_def empty_request_def env_answering_def
      option_priced_def price_250)

end
